theory Spec2Isabelle
  imports Main "HOL-Library.Word"
begin

section \<open>JavaScript strings\<close>

text \<open>
  A JavaScript string is a sequence of UTF-16 code units; \<open>length\<close>, \<open>slice\<close>,
  \<open>includes\<close>, \<open>split\<close>, \<open>trim\<close> and a regular expression without the \<open>u\<close> flag
  all count and compare code units. The Japanese literals of the source are written out
  as their code units.
\<close>

type_synonym jschar = "16 word"
type_synonym jsstring = "jschar list"

definition ascii :: "string \<Rightarrow> jsstring" where
  "ascii s = map (\<lambda>c. of_nat (of_char c)) s"

text \<open>
  The characters matched by \<open>\s\<close> and removed by \<open>String.prototype.trim\<close>
  (ECMAScript WhiteSpace and LineTerminator): TAB, LF, VT, FF, CR, SPACE, NBSP, the
  Unicode space separators and the byte order mark.
\<close>

definition whiteSpaceChars :: "jschar list" where
  "whiteSpaceChars =
     [0x0009, 0x000A, 0x000B, 0x000C, 0x000D, 0x0020, 0x00A0, 0x1680,
      0x2000, 0x2001, 0x2002, 0x2003, 0x2004, 0x2005, 0x2006, 0x2007,
      0x2008, 0x2009, 0x200A, 0x2028, 0x2029, 0x202F, 0x205F, 0x3000, 0xFEFF]"

definition isWhiteSpace :: "jschar \<Rightarrow> bool" where
  "isWhiteSpace c = List.member whiteSpaceChars c"

definition space :: jschar where
  "space = 0x0020"

text \<open>\<open>text.replace(/\s+/g, ' ')\<close>: scanning from the left, every maximal run of
  whitespace is replaced by one space, every other code unit is copied.\<close>

function replaceWhitespaceRuns :: "jsstring \<Rightarrow> jsstring" where
  "replaceWhitespaceRuns [] = []"
| "replaceWhitespaceRuns (c # cs) =
     (if isWhiteSpace c then space # replaceWhitespaceRuns (dropWhile isWhiteSpace cs)
      else c # replaceWhitespaceRuns cs)"
  by pat_completeness auto
termination
  by (relation "measure length") (auto simp: less_Suc_eq_le length_dropWhile_le)

fun trimEnd :: "jsstring \<Rightarrow> jsstring" where
  "trimEnd [] = []"
| "trimEnd (c # cs) =
     (let r = trimEnd cs in if r = [] \<and> isWhiteSpace c then [] else c # r)"

definition trimStart :: "jsstring \<Rightarrow> jsstring" where
  "trimStart s = dropWhile isWhiteSpace s"

definition trim :: "jsstring \<Rightarrow> jsstring" where
  "trim s = trimEnd (trimStart s)"

text \<open>\<open>s.slice(0, n)\<close> for a non-negative literal \<open>n\<close>.\<close>

definition slice0 :: "nat \<Rightarrow> jsstring \<Rightarrow> jsstring" where
  "slice0 n s = take n s"

definition startsWith :: "jsstring \<Rightarrow> jsstring \<Rightarrow> bool" where
  "startsWith s p = (take (length p) s = p)"

text \<open>\<open>s.includes(sub)\<close>: \<open>sub\<close> occurs in \<open>s\<close> at some position.\<close>

fun includesStr :: "jsstring \<Rightarrow> jsstring \<Rightarrow> bool" where
  "includesStr [] sub = (sub = [])"
| "includesStr (c # cs) sub = (startsWith (c # cs) sub \<or> includesStr cs sub)"

text \<open>\<open>s.split(sep)\<close>: the pieces between the non-overlapping occurrences of
  \<open>sep\<close>, found from the left; an empty separator splits into code units.\<close>

function splitAcc :: "jsstring \<Rightarrow> jsstring \<Rightarrow> jsstring \<Rightarrow> jsstring list" where
  "splitAcc sep acc [] = [rev acc]"
| "splitAcc sep acc (c # cs) =
     (if startsWith (c # cs) sep
      then rev acc # splitAcc sep [] (drop (length sep - 1) cs)
      else splitAcc sep (c # acc) cs)"
  by pat_completeness auto
termination
  by (relation "measure (\<lambda>(sep, acc, s). length s)") auto

definition split :: "jsstring \<Rightarrow> jsstring \<Rightarrow> jsstring list" where
  "split s sep = (if sep = [] then map (\<lambda>c. [c]) s else splitAcc sep [] s)"

text \<open>Reading an array out of range gives \<open>undefined\<close>.\<close>

definition at :: "'a list \<Rightarrow> nat \<Rightarrow> 'a option" where
  "at xs i = (if i < length xs then Some (xs ! i) else None)"

text \<open>\<open>a || b\<close> on strings: the empty string is falsy. The second form takes a
  possibly \<open>null\<close> or \<open>undefined\<close> left operand, as optional chaining produces.\<close>

definition orElse :: "jsstring \<Rightarrow> jsstring \<Rightarrow> jsstring" where
  "orElse a b = (if a \<noteq> [] then a else b)"

definition orElseOpt :: "jsstring option \<Rightarrow> jsstring \<Rightarrow> jsstring" where
  "orElseOpt v b = (case v of None \<Rightarrow> b | Some a \<Rightarrow> orElse a b)"

text \<open>A number in a template literal: its decimal digits.\<close>

function numberToString :: "nat \<Rightarrow> jsstring" where
  "numberToString n =
     (if n < 10 then [of_nat (48 + n)]
      else numberToString (n div 10) @ [of_nat (48 + n mod 10)])"
  by pat_completeness auto
termination
  by (relation "measure id") auto

declare numberToString.simps [simp del]

section \<open>Text helpers of the extractor\<close>

definition truncateToVarCharLimit :: "jsstring \<Rightarrow> jsstring" where
  "truncateToVarCharLimit text0 =
     (if text0 = [] then []
      else let normalized = trim (replaceWhitespaceRuns text0)
           in slice0 255 normalized)"

definition normalizeText :: "jsstring \<Rightarrow> jsstring" where
  "normalizeText text0 =
     (if text0 = [] then [] else trim (replaceWhitespaceRuns text0))"

section \<open>Thrown values, the outside world and the trace of effects\<close>

text \<open>
  Anything can be thrown in JavaScript; the outer handler of \<open>extractUrlData\<close> asks
  \<open>error instanceof Error\<close>, so a thrown value is either an \<open>Error\<close> object with its
  message or something else.
\<close>

datatype thrown = ErrorObj (message: jsstring) | NonError

record response =
  status :: nat
  statusText :: jsstring
  responseText :: "thrown + jsstring"

text \<open>\<open>response.ok\<close> is true exactly for the statuses 200 to 299.\<close>

definition ok :: "response \<Rightarrow> bool" where
  "ok r = (200 \<le> status r \<and> status r \<le> 299)"

text \<open>The parsed page: elements with their attributes (in source order, the first
  of a repeated name wins), text and comments. Tag names are the lower-case local names
  the HTML parser produces.\<close>

datatype node =
    Element (tagName: jsstring) (attributes: "(jsstring \<times> jsstring) list") (childNodes: "node list")
  | Text jsstring
  | Comment jsstring

type_synonym document = "node list"

text \<open>
  Everything outside the program is a field of the world: what the static fetch answers
  (a rejection covers network errors and the 10 second abort), what the URL parser makes
  of a string (\<open>new URL(url).hostname\<close> throws on an invalid URL), how each step of the
  headless browser ends, what the HTML parser builds and what the clock reads.
\<close>

record world =
  fetch :: "jsstring \<Rightarrow> thrown + response"
  urlHostname :: "jsstring \<Rightarrow> thrown + jsstring"
  launch :: "thrown option"
  newPage :: "thrown option"
  setUserAgent :: "thrown option"
  goto :: "jsstring \<Rightarrow> thrown option"
  pageContent :: "jsstring \<Rightarrow> thrown + jsstring"
  browserClose :: "thrown option"
  jsdom :: "jsstring \<Rightarrow> thrown + document"
  nowISOString :: jsstring

datatype event =
    Fetch jsstring
  | ConsoleLog thrown
  | ConsoleError thrown
  | Launch
  | NewPage
  | SetUserAgent jsstring
  | Goto jsstring
  | Settle nat
  | Content
  | Close

section \<open>The JavaScript-requirement heuristic\<close>

definition jsRequiredDomains :: "jsstring list" where
  "jsRequiredDomains =
     [ascii ''qiita.com'', ascii ''zenn.dev'', ascii ''note.com'', ascii ''medium.com'']"

definition jsIndicators :: "jsstring list" where
  "jsIndicators =
     [ascii ''id=\"__next\"'', ascii ''id=\"root\"'', ascii ''id=\"app\"'',
      ascii ''data-reactroot'', ascii ''__NUXT__'']"

definition checkIfJavaScriptRequired :: "world \<Rightarrow> jsstring \<Rightarrow> jsstring \<Rightarrow> thrown + bool" where
  "checkIfJavaScriptRequired w html url =
     (case urlHostname w url of
        Inl e \<Rightarrow> Inl e
      | Inr hostname \<Rightarrow>
          if list_ex (\<lambda>domain. includesStr hostname domain) jsRequiredDomains then Inr True
          else Inr (list_ex (\<lambda>indicator. includesStr html indicator) jsIndicators))"

section \<open>The headless renderer\<close>

definition userAgent :: jsstring where
  "userAgent = ascii ''Mozilla/5.0 (Windows NT 10.0; Win64; x64) AppleWebKit/537.36 (KHTML, like Gecko) Chrome/120.0.0.0 Safari/537.36''"

text \<open>The body of the \<open>try\<close> block once the browser is launched.\<close>

definition renderPage :: "world \<Rightarrow> jsstring \<Rightarrow> event list \<times> (thrown + jsstring)" where
  "renderPage w url =
     (case newPage w of
        Some e \<Rightarrow> ([NewPage], Inl e)
      | None \<Rightarrow>
     (case setUserAgent w of
        Some e \<Rightarrow> ([NewPage, SetUserAgent userAgent], Inl e)
      | None \<Rightarrow>
     (case goto w url of
        Some e \<Rightarrow> ([NewPage, SetUserAgent userAgent, Goto url], Inl e)
      | None \<Rightarrow>
     (case pageContent w url of
        Inl e \<Rightarrow> ([NewPage, SetUserAgent userAgent, Goto url, Settle 2000, Content], Inl e)
      | Inr html \<Rightarrow>
          ([NewPage, SetUserAgent userAgent, Goto url, Settle 2000, Content], Inr html)))))"

text \<open>
  \<open>try { browser = await puppeteer.launch(...); ... } finally { if (browser) await
  browser.close(); }\<close>: when the launch throws, \<open>browser\<close> is still undefined and the
  \<open>finally\<close> block does nothing; otherwise it closes the browser, and a throwing
  \<open>close\<close> replaces the outcome of the \<open>try\<close> block.
\<close>

definition fetchWithPuppeteer :: "world \<Rightarrow> jsstring \<Rightarrow> event list \<times> (thrown + jsstring)" where
  "fetchWithPuppeteer w url =
     (case launch w of
        Some e \<Rightarrow> ([Launch], Inl e)
      | None \<Rightarrow>
          (let (tr, res) = renderPage w url in
           case browserClose w of
             Some e \<Rightarrow> (Launch # tr @ [Close], Inl e)
           | None \<Rightarrow> (Launch # tr @ [Close], res)))"

section \<open>Queries on the parsed page\<close>

datatype selector =
    TypeSel jsstring
  | ClassSel jsstring
  | AttrSel jsstring jsstring jsstring

text \<open>\<open>TypeSel t\<close> is the selector \<open>t\<close>, \<open>ClassSel c\<close> is \<open>.c\<close> and
  \<open>AttrSel t a v\<close> is \<open>t[a="v"]\<close>.\<close>

definition getAttribute :: "node \<Rightarrow> jsstring \<Rightarrow> jsstring option" where
  "getAttribute n a = (case n of Element t as cs \<Rightarrow> map_of as a | _ \<Rightarrow> None)"

definition isAsciiWhitespace :: "jschar \<Rightarrow> bool" where
  "isAsciiWhitespace c = List.member [0x0009, 0x000A, 0x000C, 0x000D, 0x0020] c"

text \<open>The class attribute is a set of tokens separated by ASCII whitespace.\<close>

fun tokens :: "jsstring \<Rightarrow> jsstring \<Rightarrow> jsstring list" where
  "tokens acc [] = (if acc = [] then [] else [rev acc])"
| "tokens acc (c # cs) =
     (if isAsciiWhitespace c then (if acc = [] then tokens [] cs else rev acc # tokens [] cs)
      else tokens (c # acc) cs)"

definition classList :: "node \<Rightarrow> jsstring list" where
  "classList n = (case getAttribute n (ascii ''class'') of None \<Rightarrow> [] | Some v \<Rightarrow> tokens [] v)"

fun matches :: "selector \<Rightarrow> node \<Rightarrow> bool" where
  "matches (TypeSel t) n = (case n of Element t' as cs \<Rightarrow> t' = t | _ \<Rightarrow> False)"
| "matches (ClassSel c) n = (case n of Element t' as cs \<Rightarrow> List.member (classList n) c | _ \<Rightarrow> False)"
| "matches (AttrSel t a v) n =
     (case n of Element t' as cs \<Rightarrow> t' = t \<and> map_of as a = Some v | _ \<Rightarrow> False)"

text \<open>The elements of a subtree in document order, the root first.\<close>

fun elements :: "node \<Rightarrow> node list" where
  "elements (Element t as cs) = Element t as cs # concat (map elements cs)"
| "elements (Text s) = []"
| "elements (Comment s) = []"

definition querySelector :: "document \<Rightarrow> selector \<Rightarrow> node option" where
  "querySelector doc sel = find (matches sel) (concat (map elements doc))"

text \<open>\<open>textContent\<close> of an element: the text of all its text descendants, in order.\<close>

fun textContent :: "node \<Rightarrow> jsstring" where
  "textContent (Element t as cs) = concat (map textContent cs)"
| "textContent (Text s) = s"
| "textContent (Comment s) = []"

text \<open>\<open>el.querySelectorAll(list).forEach(x => x.remove())\<close>: every descendant of
  \<open>el\<close> that matches one of the selectors is detached; \<open>el\<close> itself stays.\<close>

fun removeMatching :: "selector list \<Rightarrow> node \<Rightarrow> node" where
  "removeMatching sels (Element t as cs) =
     Element t as (map (removeMatching sels) (filter (\<lambda>c. \<not> list_ex (\<lambda>s. matches s c) sels) cs))"
| "removeMatching sels (Text s) = Text s"
| "removeMatching sels (Comment s) = Comment s"

text \<open>\<open>for (const selector of selectors) { const element =
  document.querySelector(selector); if (element) ... }\<close>\<close>

fun firstMatch :: "document \<Rightarrow> selector list \<Rightarrow> node option" where
  "firstMatch doc [] = None"
| "firstMatch doc (sel # sels) =
     (case querySelector doc sel of
        Some element \<Rightarrow> Some element
      | None \<Rightarrow> firstMatch doc sels)"

definition metaSelectors :: "jsstring \<Rightarrow> selector list" where
  "metaSelectors property =
     [AttrSel (ascii ''meta'') (ascii ''property'') property,
      AttrSel (ascii ''meta'') (ascii ''name'') property,
      AttrSel (ascii ''meta'') (ascii ''property'') (ascii ''og:'' @ property),
      AttrSel (ascii ''meta'') (ascii ''name'') (ascii ''og:'' @ property),
      AttrSel (ascii ''meta'') (ascii ''property'') (ascii ''twitter:'' @ property),
      AttrSel (ascii ''meta'') (ascii ''name'') (ascii ''twitter:'' @ property)]"

definition getMetaContent :: "document \<Rightarrow> jsstring \<Rightarrow> jsstring" where
  "getMetaContent doc property =
     (case firstMatch doc (metaSelectors property) of
        Some element \<Rightarrow>
          (case getAttribute element (ascii ''content'') of Some v \<Rightarrow> orElse v [] | None \<Rightarrow> [])
      | None \<Rightarrow> [])"

definition contentSelectors :: "selector list" where
  "contentSelectors =
     [TypeSel (ascii ''article''),
      ClassSel (ascii ''post-content''),
      ClassSel (ascii ''entry-content''),
      ClassSel (ascii ''content''),
      ClassSel (ascii ''post''),
      TypeSel (ascii ''main''),
      ClassSel (ascii ''article-body''),
      ClassSel (ascii ''markdown-section''),
      ClassSel (ascii ''it-MdContent'')]"

definition noiseSelectors :: "selector list" where
  "noiseSelectors =
     [TypeSel (ascii ''script''), TypeSel (ascii ''style''), TypeSel (ascii ''nav''),
      TypeSel (ascii ''header''), TypeSel (ascii ''footer''), TypeSel (ascii ''aside'')]"

text \<open>\<open>getContent\<close> detaches nodes from the document it reads; it is evaluated
  last, for the last field of the record, so no other field sees the change.\<close>

definition getContent :: "document \<Rightarrow> jsstring" where
  "getContent doc =
     (case firstMatch doc contentSelectors of
        Some element \<Rightarrow>
          orElse (slice0 300 (trim (textContent (removeMatching noiseSelectors element)))) []
      | None \<Rightarrow>
          (case querySelector doc (TypeSel (ascii ''body'')) of
             Some body \<Rightarrow>
               orElse (slice0 1000 (trim (textContent (removeMatching noiseSelectors body)))) []
           | None \<Rightarrow> []))"

section \<open>The extraction\<close>

record ArticleData =
  url :: jsstring
  siteName :: jsstring
  title :: jsstring
  description :: jsstring
  publishedAt :: jsstring
  thumbnail :: jsstring
  content :: jsstring
  isLiked :: "bool option"
  isArchived :: "bool option"

type_synonym formData = "(jsstring \<times> jsstring) list"

text \<open>\<open>formData.get(name)\<close>: the first value stored under the name, or \<open>null\<close>.\<close>

definition formDataGet :: "formData \<Rightarrow> jsstring \<Rightarrow> jsstring option" where
  "formDataGet fd name = map_of fd name"

text \<open>The message "URL ga shitei sarete imasen" (no URL was given), in Japanese.\<close>

definition missingUrlMessage :: jsstring where
  "missingUrlMessage =
     [0x0055, 0x0052, 0x004C, 0x304C, 0x6307, 0x5B9A, 0x3055, 0x308C, 0x3066, 0x3044,
      0x307E, 0x305B, 0x3093]"

text \<open>The prefix "URL kaiseki ni shippai shimashita: " (analysing the URL failed).\<close>

definition failurePrefix :: jsstring where
  "failurePrefix =
     [0x0055, 0x0052, 0x004C, 0x89E3, 0x6790, 0x306B, 0x5931, 0x6557, 0x3057, 0x307E,
      0x3057, 0x305F, 0x003A, 0x0020]"

text \<open>"fumei na eraa" (unknown error).\<close>

definition unknownErrorMessage :: jsstring where
  "unknownErrorMessage = [0x4E0D, 0x660E, 0x306A, 0x30A8, 0x30E9, 0x30FC]"

text \<open>"taitoru nashi" (no title).\<close>

definition defaultTitle :: jsstring where
  "defaultTitle = [0x30BF, 0x30A4, 0x30C8, 0x30EB, 0x306A, 0x3057]"

text \<open>
  The inner \<open>try\<close>/\<open>catch\<close>: the trace, the value of \<open>html\<close> and the value of
  \<open>shouldUsePuppeteer\<close> after it. Whatever is thrown inside is logged and swallowed.
\<close>

definition staticFetch :: "world \<Rightarrow> jsstring \<Rightarrow> event list \<times> jsstring \<times> bool" where
  "staticFetch w url' =
     (case fetch w url' of
        Inl e \<Rightarrow> ([Fetch url', ConsoleLog e], [], True)
      | Inr resp \<Rightarrow>
          if \<not> ok resp then
            ([Fetch url',
              ConsoleLog (ErrorObj (ascii ''HTTP '' @ numberToString (status resp) @
                                    ascii '': '' @ statusText resp))], [], True)
          else
            (case responseText resp of
               Inl e \<Rightarrow> ([Fetch url', ConsoleLog e], [], True)
             | Inr html \<Rightarrow>
                 (case checkIfJavaScriptRequired w html url' of
                    Inl e \<Rightarrow> ([Fetch url', ConsoleLog e], html, True)
                  | Inr isJSRequired \<Rightarrow> ([Fetch url'], html, isJSRequired))))"

text \<open>The static fetch followed by \<open>if (shouldUsePuppeteer) html = await
  fetchWithPuppeteer(url)\<close>.\<close>

definition obtainHtml :: "world \<Rightarrow> jsstring \<Rightarrow> event list \<times> (thrown + jsstring)" where
  "obtainHtml w url' =
     (let (tr, html, shouldUsePuppeteer) = staticFetch w url' in
      if shouldUsePuppeteer then
        (let (tr', res) = fetchWithPuppeteer w url' in (tr @ tr', res))
      else (tr, Inr html))"

text \<open>\<open>document.querySelector("title")?.textContent?.split(" | ")[1]\<close>\<close>

definition titleSecondPart :: "document \<Rightarrow> jsstring option" where
  "titleSecondPart doc =
     (case querySelector doc (TypeSel (ascii ''title'')) of
        None \<Rightarrow> None
      | Some t \<Rightarrow> at (split (textContent t) (ascii '' | '')) 1)"

text \<open>The argument of \<open>truncateToVarCharLimit\<close> for \<open>siteName\<close>: the URL is
  parsed only when every earlier alternative is falsy.\<close>

definition siteNameSource :: "world \<Rightarrow> document \<Rightarrow> jsstring \<Rightarrow> thrown + jsstring" where
  "siteNameSource w doc url' =
     (let found =
        orElse (getMetaContent doc (ascii ''site_name''))
          (orElse (getMetaContent doc (ascii ''og:site_name''))
             (orElseOpt (titleSecondPart doc) []))
      in if found \<noteq> [] then Inr found else urlHostname w url')"

definition textOf :: "document \<Rightarrow> selector \<Rightarrow> jsstring option" where
  "textOf doc sel = map_option textContent (querySelector doc sel)"

definition titleSource :: "document \<Rightarrow> jsstring" where
  "titleSource doc =
     orElse (getMetaContent doc (ascii ''title''))
       (orElse (getMetaContent doc (ascii ''og:title''))
          (orElseOpt (textOf doc (TypeSel (ascii ''h1'')))
             (orElseOpt (textOf doc (TypeSel (ascii ''title''))) defaultTitle)))"

definition descriptionSource :: "document \<Rightarrow> jsstring" where
  "descriptionSource doc =
     orElse (getMetaContent doc (ascii ''description''))
       (orElse (getMetaContent doc (ascii ''og:description''))
          (orElse (getMetaContent doc (ascii ''twitter:description'')) []))"

text \<open>\<open>document.querySelector("time")?.getAttribute("datetime")\<close>\<close>

definition timeDatetime :: "document \<Rightarrow> jsstring option" where
  "timeDatetime doc =
     (case querySelector doc (TypeSel (ascii ''time'')) of
        None \<Rightarrow> None
      | Some t \<Rightarrow> getAttribute t (ascii ''datetime''))"

definition publishedAtSource :: "world \<Rightarrow> document \<Rightarrow> jsstring" where
  "publishedAtSource w doc =
     orElse (getMetaContent doc (ascii ''article:modified_time''))
       (orElse (getMetaContent doc (ascii ''article:published_time''))
          (orElseOpt (timeDatetime doc) (nowISOString w)))"

definition thumbnailSource :: "document \<Rightarrow> jsstring" where
  "thumbnailSource doc =
     orElse (getMetaContent doc (ascii ''image''))
       (orElse (getMetaContent doc (ascii ''og:image''))
          (orElse (getMetaContent doc (ascii ''twitter:image'')) []))"

text \<open>The object literal \<open>articleData\<close> of \<open>src/unnamed/part_000\<close>. Only the first
  field can throw; the optional fields are left undefined.\<close>

definition buildArticleData :: "world \<Rightarrow> document \<Rightarrow> jsstring \<Rightarrow> thrown + ArticleData" where
  "buildArticleData w doc url' =
     (case siteNameSource w doc url' of
        Inl e \<Rightarrow> Inl e
      | Inr s \<Rightarrow>
          Inr \<lparr> url = url',
                siteName = truncateToVarCharLimit s,
                title = truncateToVarCharLimit (titleSource doc),
                description = truncateToVarCharLimit (descriptionSource doc),
                publishedAt = publishedAtSource w doc,
                thumbnail = normalizeText (thumbnailSource doc),
                content = normalizeText (getContent doc),
                isLiked = None,
                isArchived = None \<rparr>)"

text \<open>The same literal in \<open>src/app/actions/extract-url-data.ts\<close>, which has neither
  \<open>truncateToVarCharLimit\<close> nor \<open>normalizeText\<close>.\<close>

definition buildArticleData_actions :: "world \<Rightarrow> document \<Rightarrow> jsstring \<Rightarrow> thrown + ArticleData" where
  "buildArticleData_actions w doc url' =
     (case siteNameSource w doc url' of
        Inl e \<Rightarrow> Inl e
      | Inr s \<Rightarrow>
          Inr \<lparr> url = url',
                siteName = s,
                title = titleSource doc,
                description = descriptionSource doc,
                publishedAt = publishedAtSource w doc,
                thumbnail = thumbnailSource doc,
                content = getContent doc,
                isLiked = None,
                isArchived = None \<rparr>)"

text \<open>The outer \<open>try\<close> block: fetch or render, parse, build the record.\<close>

definition extractionAttempt :: "world \<Rightarrow> jsstring \<Rightarrow> event list \<times> (thrown + ArticleData)" where
  "extractionAttempt w url' =
     (let (tr, res) = obtainHtml w url' in
      case res of
        Inl e \<Rightarrow> (tr, Inl e)
      | Inr html \<Rightarrow>
          (case jsdom w html of
             Inl e \<Rightarrow> (tr, Inl e)
           | Inr doc \<Rightarrow> (tr, buildArticleData w doc url')))"

text \<open>The outer \<open>catch\<close>: log, then throw a new \<open>Error\<close> whose message is the
  prefix followed by the message of what was caught, when that is an \<open>Error\<close>.\<close>

definition rethrow :: "thrown \<Rightarrow> thrown" where
  "rethrow error =
     ErrorObj (failurePrefix @
               (case error of ErrorObj m \<Rightarrow> m | NonError \<Rightarrow> unknownErrorMessage))"

definition extractUrlData :: "world \<Rightarrow> formData \<Rightarrow> event list \<times> (thrown + ArticleData)" where
  "extractUrlData w fd =
     (case formDataGet fd (ascii ''url'') of
        None \<Rightarrow> ([], Inl (ErrorObj missingUrlMessage))
      | Some url' \<Rightarrow>
          if url' = [] then ([], Inl (ErrorObj missingUrlMessage))
          else
            (let (tr, res) = extractionAttempt w url' in
             case res of
               Inl error \<Rightarrow> (tr @ [ConsoleError error], Inl (rethrow error))
             | Inr articleData \<Rightarrow> (tr, Inr articleData)))"

text \<open>\<open>extractUrlData\<close> of \<open>src/app/actions/extract-url-data.ts\<close>: the same control
  flow around the other record literal.\<close>

definition extractUrlData_actions :: "world \<Rightarrow> formData \<Rightarrow> event list \<times> (thrown + ArticleData)" where
  "extractUrlData_actions w fd =
     (case formDataGet fd (ascii ''url'') of
        None \<Rightarrow> ([], Inl (ErrorObj missingUrlMessage))
      | Some url' \<Rightarrow>
          if url' = [] then ([], Inl (ErrorObj missingUrlMessage))
          else
            (let (tr, res) = obtainHtml w url' in
             case (case res of
                     Inl e \<Rightarrow> Inl e
                   | Inr html \<Rightarrow>
                       (case jsdom w html of
                          Inl e \<Rightarrow> Inl e
                        | Inr doc \<Rightarrow> buildArticleData_actions w doc url')) of
               Inl error \<Rightarrow> (tr @ [ConsoleError error], Inl (rethrow error))
             | Inr articleData \<Rightarrow> (tr, Inr articleData)))"

section \<open>Properties of strings and traces used in the statements\<close>

text \<open>A string in which whitespace occurs only as single spaces: every whitespace
  code unit is U+0020 and is not followed by another one.\<close>

fun collapsed :: "jsstring \<Rightarrow> bool" where
  "collapsed [] = True"
| "collapsed [c] = (isWhiteSpace c \<longrightarrow> c = space)"
| "collapsed (c # d # cs) =
     ((isWhiteSpace c \<longrightarrow> c = space \<and> \<not> isWhiteSpace d) \<and> collapsed (d # cs))"

text \<open>A display field: at most 255 code units, whitespace only as single spaces,
  no whitespace in front (the cut may leave one space at the end).\<close>

definition displayField :: "jsstring \<Rightarrow> bool" where
  "displayField f = (length f \<le> 255 \<and> collapsed f \<and> (f = [] \<or> \<not> isWhiteSpace (hd f)))"

text \<open>A whitespace-normalised field: whitespace only as single spaces, none in front
  and none at the end.\<close>

definition normalizedField :: "jsstring \<Rightarrow> bool" where
  "normalizedField f =
     (collapsed f \<and> (f = [] \<or> (\<not> isWhiteSpace (hd f) \<and> \<not> isWhiteSpace (last f))))"

text \<open>The events that only the headless renderer produces.\<close>

fun isRendererEvent :: "event \<Rightarrow> bool" where
  "isRendererEvent (Fetch u) = False"
| "isRendererEvent (ConsoleLog e) = False"
| "isRendererEvent (ConsoleError e) = False"
| "isRendererEvent ev = True"

fun isFetch :: "event \<Rightarrow> bool" where
  "isFetch (Fetch u) = True"
| "isFetch ev = False"

section \<open>Concrete inputs\<close>

definition exampleUrl :: jsstring where
  "exampleUrl = ascii ''https://example.com/post''"

definition exampleForm :: formData where
  "exampleForm = [(ascii ''url'', exampleUrl)]"

definition exampleHtml :: jsstring where
  "exampleHtml = ascii ''<html><body>hi</body></html>''"

text \<open>A page without any metadata.\<close>

definition bareDocument :: document where
  "bareDocument =
     [Element (ascii ''html'') []
        [Element (ascii ''head'') [] [],
         Element (ascii ''body'') [] [Text (ascii ''hi'')]]]"

text \<open>A world in which the static fetch answers 200 with a plain page and every
  step of the browser succeeds.\<close>

definition plainWorld :: world where
  "plainWorld =
     \<lparr> fetch = (\<lambda>u. Inr \<lparr> status = 200, statusText = ascii ''OK'',
                            responseText = Inr exampleHtml \<rparr>),
       urlHostname = (\<lambda>u. Inr (ascii ''example.com'')),
       launch = None,
       newPage = None,
       setUserAgent = None,
       goto = (\<lambda>u. None),
       pageContent = (\<lambda>u. Inr exampleHtml),
       browserClose = None,
       jsdom = (\<lambda>h. Inr bareDocument),
       nowISOString = ascii ''2025-01-01T00:00:00.000Z'' \<rparr>"

text \<open>The same world seen through a URL on an allow-listed host.\<close>

definition qiitaUrl :: jsstring where
  "qiitaUrl = ascii ''https://qiita.com/items/1''"

definition qiitaForm :: formData where
  "qiitaForm = [(ascii ''url'', qiitaUrl)]"

definition qiitaWorld :: world where
  "qiitaWorld = plainWorld \<lparr> urlHostname := (\<lambda>u. Inr (ascii ''qiita.com'')) \<rparr>"

text \<open>A host that only contains an allow-listed domain.\<close>

definition notnoteWorld :: world where
  "notnoteWorld = plainWorld \<lparr> urlHostname := (\<lambda>u. Inr (ascii ''notnote.com'')) \<rparr>"

text \<open>The static fetch answers 404; the browser works.\<close>

definition notFoundWorld :: world where
  "notFoundWorld =
     plainWorld \<lparr> fetch := (\<lambda>u. Inr \<lparr> status = 404, statusText = ascii ''Not Found'',
                                        responseText = Inr [] \<rparr>) \<rparr>"

text \<open>The static fetch is rejected and the navigation of the browser times out.\<close>

definition navigationFailsWorld :: world where
  "navigationFailsWorld =
     plainWorld \<lparr> fetch := (\<lambda>u. Inl (ErrorObj (ascii ''fetch failed''))),
                  goto := (\<lambda>u. Some (ErrorObj (ascii ''Navigation timeout''))) \<rparr>"

text \<open>A page whose text sits in a container of class \<open>content\<close>, next to a
  navigation bar, with a script and an aside inside the container.\<close>

definition contentDiv :: node where
  "contentDiv =
     Element (ascii ''div'') [(ascii ''class'', ascii ''wrap content'')]
       [Element (ascii ''script'') [] [Text (ascii ''x()'')],
        Text (ascii ''  Hello ''),
        Element (ascii ''aside'') [] [Text (ascii ''ad'')],
        Element (ascii ''p'') [] [Text (ascii ''world  '')]]"

definition articleDocument :: document where
  "articleDocument =
     [Element (ascii ''html'') []
        [Element (ascii ''head'') [] [Element (ascii ''title'') [] [Text (ascii ''Post | Site'')]],
         Element (ascii ''body'') []
           [Element (ascii ''nav'') [] [Text (ascii ''menu'')], contentDiv]]]"

text \<open>A page whose Open Graph title and image are 300 code units long each.\<close>

definition longTitle :: jsstring where
  "longTitle = replicate 300 0x0062"

definition longImage :: jsstring where
  "longImage = replicate 300 0x0061"

definition longDocument :: document where
  "longDocument =
     [Element (ascii ''html'') []
        [Element (ascii ''head'') []
           [Element (ascii ''meta'')
              [(ascii ''property'', ascii ''og:title''), (ascii ''content'', longTitle)] [],
            Element (ascii ''meta'')
              [(ascii ''property'', ascii ''og:image''), (ascii ''content'', longImage)] []],
         Element (ascii ''body'') [] [Text (ascii ''hi'')]]]"

definition longWorld :: world where
  "longWorld = plainWorld \<lparr> jsdom := (\<lambda>h. Inr longDocument) \<rparr>"

text \<open>The records the two versions of \<open>extractUrlData\<close> return for that page.\<close>

definition longRecord_actions :: ArticleData where
  "longRecord_actions =
     \<lparr> url = exampleUrl, siteName = ascii ''example.com'', title = longTitle,
       description = [], publishedAt = ascii ''2025-01-01T00:00:00.000Z'',
       thumbnail = longImage, content = ascii ''hi'', isLiked = None, isArchived = None \<rparr>"

definition longRecord :: ArticleData where
  "longRecord = longRecord_actions \<lparr> title := replicate 255 0x0062 \<rparr>"


section \<open>Whitespace normalisation\<close>

lemma isWhiteSpace_space: "isWhiteSpace space"
  by (simp add: isWhiteSpace_def whiteSpaceChars_def space_def)

lemma collapsed_Cons:
  "collapsed (c # s) \<longleftrightarrow>
     (isWhiteSpace c \<longrightarrow> c = space \<and> (s \<noteq> [] \<longrightarrow> \<not> isWhiteSpace (hd s))) \<and> collapsed s"
  by (cases s) auto

lemma hd_replaceWhitespaceRuns:
  "s \<noteq> [] \<Longrightarrow> \<not> isWhiteSpace (hd s) \<Longrightarrow>
     replaceWhitespaceRuns s \<noteq> [] \<and> hd (replaceWhitespaceRuns s) = hd s"
  by (cases s) auto

lemma replaceWhitespaceRuns_Nil_iff: "replaceWhitespaceRuns s = [] \<longleftrightarrow> s = []"
  by (cases s) auto

lemma collapsed_replaceWhitespaceRuns: "collapsed (replaceWhitespaceRuns s)"
proof (induction s rule: replaceWhitespaceRuns.induct)
  case 1
  show ?case by simp
next
  case (2 c cs)
  show ?case
  proof (cases "isWhiteSpace c")
    case True
    let ?r = "dropWhile isWhiteSpace cs"
    have "?r \<noteq> [] \<Longrightarrow> \<not> isWhiteSpace (hd ?r)"
      using hd_dropWhile by blast
    then have "replaceWhitespaceRuns ?r \<noteq> [] \<Longrightarrow> \<not> isWhiteSpace (hd (replaceWhitespaceRuns ?r))"
      using hd_replaceWhitespaceRuns [of ?r] by (auto simp: replaceWhitespaceRuns_Nil_iff)
    with True 2 show ?thesis
      by (simp add: collapsed_Cons isWhiteSpace_space del: collapsed.simps)
  next
    case False
    with 2 show ?thesis by (simp add: collapsed_Cons del: collapsed.simps)
  qed
qed

lemma collapsed_dropWhile: "collapsed s \<Longrightarrow> collapsed (dropWhile P s)"
  by (induction s) (auto simp: collapsed_Cons simp del: collapsed.simps)

lemma hd_trimEnd: "trimEnd s \<noteq> [] \<Longrightarrow> hd (trimEnd s) = hd s"
  by (cases s) (auto simp: Let_def split: if_splits)

lemma collapsed_trimEnd: "collapsed s \<Longrightarrow> collapsed (trimEnd s)"
  by (induction s) (auto simp: collapsed_Cons Let_def hd_trimEnd simp del: collapsed.simps)

lemma collapsed_trim: "collapsed s \<Longrightarrow> collapsed (trim s)"
  by (simp add: trim_def trimStart_def collapsed_dropWhile collapsed_trimEnd)

lemma collapsed_take: "collapsed s \<Longrightarrow> collapsed (take n s)"
proof (induction s arbitrary: n)
  case Nil
  show ?case by simp
next
  case (Cons c s)
  show ?case
  proof (cases n)
    case 0
    then show ?thesis by simp
  next
    case (Suc m)
    have "take m s \<noteq> [] \<Longrightarrow> hd (take m s) = hd s"
      by (cases s; cases m) auto
    moreover have "take m s \<noteq> [] \<Longrightarrow> s \<noteq> []" by auto
    ultimately show ?thesis
      using Cons Suc by (auto simp: collapsed_Cons simp del: collapsed.simps)
  qed
qed

lemma last_trimEnd: "trimEnd s \<noteq> [] \<Longrightarrow> \<not> isWhiteSpace (last (trimEnd s))"
  by (induction s) (auto simp: Let_def split: if_splits)

lemma trim_ends:
  assumes "trim s \<noteq> []"
  shows "\<not> isWhiteSpace (hd (trim s))" and "\<not> isWhiteSpace (last (trim s))"
proof -
  have ne: "dropWhile isWhiteSpace s \<noteq> []"
  proof
    assume "dropWhile isWhiteSpace s = []"
    then have "trim s = trimEnd []" unfolding trim_def trimStart_def by (rule arg_cong)
    with assms show False by simp
  qed
  then have "\<not> isWhiteSpace (hd (dropWhile isWhiteSpace s))"
    using hd_dropWhile by blast
  with assms show "\<not> isWhiteSpace (hd (trim s))"
    by (simp add: trim_def trimStart_def hd_trimEnd)
  from assms show "\<not> isWhiteSpace (last (trim s))"
    by (simp add: trim_def last_trimEnd)
qed

lemma filter_dropWhile_whitespace:
  "filter (\<lambda>c. \<not> isWhiteSpace c) (dropWhile isWhiteSpace s) = filter (\<lambda>c. \<not> isWhiteSpace c) s"
  by (induction s) auto

lemma filter_replaceWhitespaceRuns:
  "filter (\<lambda>c. \<not> isWhiteSpace c) (replaceWhitespaceRuns s) = filter (\<lambda>c. \<not> isWhiteSpace c) s"
  by (induction s rule: replaceWhitespaceRuns.induct)
     (auto simp: isWhiteSpace_space filter_dropWhile_whitespace)

lemma filter_trimEnd:
  "filter (\<lambda>c. \<not> isWhiteSpace c) (trimEnd s) = filter (\<lambda>c. \<not> isWhiteSpace c) s"
  by (induction s) (auto simp: Let_def)

lemma filter_trim:
  "filter (\<lambda>c. \<not> isWhiteSpace c) (trim s) = filter (\<lambda>c. \<not> isWhiteSpace c) s"
  by (simp add: trim_def trimStart_def filter_trimEnd filter_dropWhile_whitespace)

lemma replaceWhitespaceRuns_id:
  "\<forall>c\<in>set s. \<not> isWhiteSpace c \<Longrightarrow> replaceWhitespaceRuns s = s"
  by (induction s) auto

lemma trimEnd_id: "\<forall>c\<in>set s. \<not> isWhiteSpace c \<Longrightarrow> trimEnd s = s"
  by (induction s) (auto simp: Let_def)

lemma trim_id: "\<forall>c\<in>set s. \<not> isWhiteSpace c \<Longrightarrow> trim s = s"
  by (cases s) (auto simp: trim_def trimStart_def trimEnd_id Let_def)

lemma length_replaceWhitespaceRuns: "length (replaceWhitespaceRuns s) \<le> length s"
proof (induction s rule: replaceWhitespaceRuns.induct)
  case 1
  show ?case by simp
next
  case (2 c cs)
  have "length (dropWhile isWhiteSpace cs) \<le> length cs"
    by (rule length_dropWhile_le)
  with 2 show ?case by (cases "isWhiteSpace c") auto
qed

lemma length_trimEnd: "length (trimEnd s) \<le> length s"
  by (induction s) (auto simp: Let_def)

lemma length_trim: "length (trim s) \<le> length s"
  using length_trimEnd [of "dropWhile isWhiteSpace s"] length_dropWhile_le [of isWhiteSpace s]
  by (simp add: trim_def trimStart_def)

lemma normalizeText_eq: "normalizeText t = trim (replaceWhitespaceRuns t)"
  by (simp add: normalizeText_def trim_def trimStart_def)

lemma truncateToVarCharLimit_eq:
  "truncateToVarCharLimit t = take 255 (trim (replaceWhitespaceRuns t))"
  by (simp add: truncateToVarCharLimit_def slice0_def trim_def trimStart_def)

text \<open>
  C1. \<open>truncateToVarCharLimit\<close> cuts the whitespace-normalised text at 255 code units.
  The normalised text has whitespace only as single spaces, neither starts nor ends with
  whitespace and keeps every other code unit in order; so the result is at most 255 long,
  is exactly 255 long whenever the normalised text has at least 255 code units (a 300
  character title that normalisation does not shorten), and \<open>"a\n\n  b"\<close> becomes
  \<open>"a b"\<close>.
\<close>

theorem truncateToVarCharLimit_normalizes_then_cuts:
  "truncateToVarCharLimit t = take 255 (trim (replaceWhitespaceRuns t))
   \<and> collapsed (trim (replaceWhitespaceRuns t))
   \<and> (trim (replaceWhitespaceRuns t) \<noteq> [] \<longrightarrow>
        \<not> isWhiteSpace (hd (trim (replaceWhitespaceRuns t)))
        \<and> \<not> isWhiteSpace (last (trim (replaceWhitespaceRuns t))))
   \<and> filter (\<lambda>c. \<not> isWhiteSpace c) (trim (replaceWhitespaceRuns t))
       = filter (\<lambda>c. \<not> isWhiteSpace c) t
   \<and> length (truncateToVarCharLimit t) \<le> 255
   \<and> (255 \<le> length (trim (replaceWhitespaceRuns t)) \<longrightarrow>
        length (truncateToVarCharLimit t) = 255)
   \<and> (length t = 300 \<and> length (trim (replaceWhitespaceRuns t)) = length t \<longrightarrow>
        length (truncateToVarCharLimit t) = 255)
   \<and> truncateToVarCharLimit (ascii ''a'' @ [0x000A, 0x000A, 0x0020, 0x0020] @ ascii ''b'')
       = ascii ''a b''"
proof -
  have cut: "truncateToVarCharLimit t = take 255 (trim (replaceWhitespaceRuns t))"
    by (rule truncateToVarCharLimit_eq)
  have coll: "collapsed (trim (replaceWhitespaceRuns t))"
    by (simp add: collapsed_trim collapsed_replaceWhitespaceRuns)
  have ends: "trim (replaceWhitespaceRuns t) \<noteq> [] \<longrightarrow>
        \<not> isWhiteSpace (hd (trim (replaceWhitespaceRuns t)))
        \<and> \<not> isWhiteSpace (last (trim (replaceWhitespaceRuns t)))"
    using trim_ends [of "replaceWhitespaceRuns t"] by blast
  have kept: "filter (\<lambda>c. \<not> isWhiteSpace c) (trim (replaceWhitespaceRuns t))
       = filter (\<lambda>c. \<not> isWhiteSpace c) t"
    by (simp add: filter_trim filter_replaceWhitespaceRuns)
  have len: "length (truncateToVarCharLimit t) \<le> 255"
    by (simp add: cut)
  have full: "255 \<le> length (trim (replaceWhitespaceRuns t)) \<longrightarrow>
        length (truncateToVarCharLimit t) = 255"
    by (simp add: cut)
  have title: "length t = 300 \<and> length (trim (replaceWhitespaceRuns t)) = length t \<longrightarrow>
        length (truncateToVarCharLimit t) = 255"
    by (simp add: cut)
  have example:
    "truncateToVarCharLimit (ascii ''a'' @ [0x000A, 0x000A, 0x0020, 0x0020] @ ascii ''b'')
       = ascii ''a b''"
    by (simp add: ascii_def truncateToVarCharLimit_def trim_def trimStart_def slice0_def
        isWhiteSpace_def whiteSpaceChars_def space_def)
  from cut coll ends kept len full title example show ?thesis by blast
qed

theorem truncateToVarCharLimit_normalizes_then_cuts_witness:
  "length (replicate 300 (0x0061 :: jschar)) = 300
   \<and> trim (replaceWhitespaceRuns (replicate 300 (0x0061 :: jschar))) = replicate 300 0x0061
   \<and> length (truncateToVarCharLimit (replicate 300 (0x0061 :: jschar))) = 255
   \<and> \<not> isWhiteSpace (hd (trim (replaceWhitespaceRuns (replicate 300 (0x0061 :: jschar)))))"
proof -
  have nows: "\<forall>c\<in>set (replicate 300 (0x0061 :: jschar)). \<not> isWhiteSpace c"
    by (simp add: isWhiteSpace_def whiteSpaceChars_def)
  have same: "trim (replaceWhitespaceRuns (replicate 300 (0x0061 :: jschar))) = replicate 300 0x0061"
    using nows by (simp add: replaceWhitespaceRuns_id trim_id)
  have ne: "trim (replaceWhitespaceRuns (replicate 300 (0x0061 :: jschar))) \<noteq> []"
    unfolding same by simp
  show ?thesis
    using truncateToVarCharLimit_normalizes_then_cuts [of "replicate 300 (0x0061 :: jschar)"] same ne
    by simp
qed

section \<open>Substring search\<close>

lemma includesStr_self: "includesStr s s"
  by (cases s) (auto simp: startsWith_def)

lemma includesStr_iff: "includesStr s sub \<longleftrightarrow> (\<exists>p q. s = p @ sub @ q)"
proof (induction s)
  case Nil
  show ?case by auto
next
  case (Cons c cs)
  show ?case
  proof
    assume "includesStr (c # cs) sub"
    then consider "startsWith (c # cs) sub" | "includesStr cs sub" by auto
    then show "\<exists>p q. c # cs = p @ sub @ q"
    proof cases
      case 1
      then have "c # cs = [] @ sub @ drop (length sub) (c # cs)"
        unfolding startsWith_def by (metis append_Nil append_take_drop_id)
      then show ?thesis by blast
    next
      case 2
      with Cons obtain p q where "cs = p @ sub @ q" by blast
      then have "c # cs = (c # p) @ sub @ q" by simp
      then show ?thesis by blast
    qed
  next
    assume "\<exists>p q. c # cs = p @ sub @ q"
    then obtain p q where pq: "c # cs = p @ sub @ q" by blast
    show "includesStr (c # cs) sub"
    proof (cases p)
      case Nil
      with pq have "startsWith (c # cs) sub" by (simp add: startsWith_def)
      then show ?thesis by simp
    next
      case (Cons a p')
      with pq have "cs = p' @ sub @ q" by simp
      with Cons.IH show ?thesis by auto
    qed
  qed
qed

section \<open>Control flow of the two-stage fetch\<close>

lemma hd_fetchWithPuppeteer: "\<exists>tr. fst (fetchWithPuppeteer w u) = Launch # tr"
  by (auto simp: fetchWithPuppeteer_def split: option.splits prod.splits)

lemma renderPage_events:
  "set (fst (renderPage w u)) \<subseteq> {NewPage, SetUserAgent userAgent, Goto u, Settle 2000, Content}"
  by (auto simp: renderPage_def split: option.splits sum.splits)

lemma fetchWithPuppeteer_events:
  "set (fst (fetchWithPuppeteer w u))
     \<subseteq> {Launch, NewPage, SetUserAgent userAgent, Goto u, Settle 2000, Content, Close}"
  using renderPage_events [of w u]
  by (auto simp: fetchWithPuppeteer_def split: option.splits prod.splits)

lemma fetchWithPuppeteer_no_fetch: "filter isFetch (fst (fetchWithPuppeteer w u)) = []"
proof -
  have "\<forall>ev\<in>set (fst (fetchWithPuppeteer w u)). \<not> isFetch ev"
    using fetchWithPuppeteer_events [of w u] by auto
  then show ?thesis by (simp add: filter_empty_conv)
qed

lemma staticFetch_domain:
  assumes "urlHostname w u = Inr h" and "list_ex (\<lambda>d. includesStr h d) jsRequiredDomains"
  shows "snd (snd (staticFetch w u))"
  using assms
  by (auto simp: staticFetch_def checkIfJavaScriptRequired_def split: sum.splits)

lemma staticFetch_failed:
  assumes "(\<exists>e. fetch w u = Inl e) \<or> (\<exists>resp. fetch w u = Inr resp \<and> \<not> ok resp)"
  shows "\<exists>x. staticFetch w u = ([Fetch u, ConsoleLog x], [], True)"
  using assms by (auto simp: staticFetch_def)

lemma staticFetch_plain:
  assumes "fetch w u = Inr resp" and "ok resp" and "responseText resp = Inr html"
    and "urlHostname w u = Inr h"
    and "\<not> list_ex (\<lambda>d. includesStr h d) jsRequiredDomains"
    and "\<not> list_ex (\<lambda>i. includesStr html i) jsIndicators"
  shows "staticFetch w u = ([Fetch u], html, False)"
  using assms by (simp add: staticFetch_def checkIfJavaScriptRequired_def)

lemma obtainHtml_rendered:
  assumes "snd (snd (staticFetch w u))"
  shows "obtainHtml w u =
           (fst (staticFetch w u) @ fst (fetchWithPuppeteer w u), snd (fetchWithPuppeteer w u))"
  using assms by (auto simp: obtainHtml_def split: prod.splits)

lemma obtainHtml_static:
  assumes "\<not> snd (snd (staticFetch w u))"
  shows "obtainHtml w u = (fst (staticFetch w u), Inr (fst (snd (staticFetch w u))))"
  using assms by (auto simp: obtainHtml_def split: prod.splits)

lemma extractionAttempt_trace: "fst (extractionAttempt w u) = fst (obtainHtml w u)"
  by (auto simp: extractionAttempt_def split: prod.splits sum.splits)

lemma extractUrlData_present:
  assumes "formDataGet fd (ascii ''url'') = Some u" and "u \<noteq> []"
  shows "extractUrlData w fd =
           (case snd (extractionAttempt w u) of
              Inl e \<Rightarrow> (fst (obtainHtml w u) @ [ConsoleError e], Inl (rethrow e))
            | Inr a \<Rightarrow> (fst (obtainHtml w u), Inr a))"
  using assms extractionAttempt_trace [of w u]
  by (auto simp: extractUrlData_def split: prod.splits sum.splits)

lemma extractUrlData_trace:
  assumes "formDataGet fd (ascii ''url'') = Some u" and "u \<noteq> []"
  shows "fst (extractUrlData w fd) = fst (obtainHtml w u) \<or>
         (\<exists>e. fst (extractUrlData w fd) = fst (obtainHtml w u) @ [ConsoleError e])"
  using extractUrlData_present [OF assms, of w] by (auto split: sum.splits)

lemma rendered_when_domain_matches:
  assumes "formDataGet fd (ascii ''url'') = Some u" and "u \<noteq> []"
    and "urlHostname w u = Inr h" and "list_ex (\<lambda>d. includesStr h d) jsRequiredDomains"
  shows "\<exists>pre post. fst (extractUrlData w fd) = pre @ fst (fetchWithPuppeteer w u) @ post"
proof -
  have "snd (snd (staticFetch w u))"
    using assms(3,4) by (rule staticFetch_domain)
  then have "fst (obtainHtml w u) = fst (staticFetch w u) @ fst (fetchWithPuppeteer w u) @ []"
    by (simp add: obtainHtml_rendered)
  then show ?thesis
    using extractUrlData_trace [OF assms(1,2), of w] by (metis append.assoc)
qed

lemma launch_in_trace:
  assumes "tr = pre @ fst (fetchWithPuppeteer w u) @ post"
  shows "Launch \<in> set tr"
  using assms hd_fetchWithPuppeteer [of w u] by auto

text \<open>
  C2. When the URL is present and its hostname is one of the allow-listed domains, the
  trace of \<open>extractUrlData\<close> contains the whole run of \<open>fetchWithPuppeteer\<close> on that URL,
  whatever the static fetch answered (the world is arbitrary) and whatever the HTML was.
\<close>

theorem allowlisted_host_always_rendered:
  assumes "formDataGet fd (ascii ''url'') = Some u" and "u \<noteq> []"
    and "urlHostname w u = Inr h" and "h \<in> set jsRequiredDomains"
  shows "Launch \<in> set (fst (extractUrlData w fd))
         \<and> (\<exists>pre post. fst (extractUrlData w fd) = pre @ fst (fetchWithPuppeteer w u) @ post)"
proof -
  have "list_ex (\<lambda>d. includesStr h d) jsRequiredDomains"
    using assms(4) includesStr_self unfolding list_ex_iff by blast
  then obtain pre post
    where tr: "fst (extractUrlData w fd) = pre @ fst (fetchWithPuppeteer w u) @ post"
    using rendered_when_domain_matches [OF assms(1,2,3)] by blast
  then show ?thesis using launch_in_trace by blast
qed

theorem allowlisted_host_always_rendered_witness:
  "formDataGet qiitaForm (ascii ''url'') = Some qiitaUrl \<and> qiitaUrl \<noteq> []
   \<and> urlHostname qiitaWorld qiitaUrl = Inr (ascii ''qiita.com'')
   \<and> ascii ''qiita.com'' \<in> set jsRequiredDomains
   \<and> Launch \<in> set (fst (extractUrlData qiitaWorld qiitaForm))"
proof -
  have a: "formDataGet qiitaForm (ascii ''url'') = Some qiitaUrl"
    by (simp add: formDataGet_def qiitaForm_def)
  have b: "qiitaUrl \<noteq> []"
    by (simp add: qiitaUrl_def ascii_def)
  have c: "urlHostname qiitaWorld qiitaUrl = Inr (ascii ''qiita.com'')"
    by (simp add: qiitaWorld_def)
  have d: "ascii ''qiita.com'' \<in> set jsRequiredDomains"
    by (simp add: jsRequiredDomains_def)
  show ?thesis
    using allowlisted_host_always_rendered [OF a b c d] a b c d by blast
qed

text \<open>
  C10. The allow-list test is substring containment: whenever the hostname of the URL
  has an allow-listed domain anywhere inside it, \<open>checkIfJavaScriptRequired\<close> answers
  true for every HTML, and \<open>extractUrlData\<close> runs the renderer. The hostnames
  \<open>qiita.com.evil.example\<close> and \<open>notnote.com\<close> are not in the list and are matched.
\<close>

theorem allowlist_is_substring_match:
  assumes "urlHostname w u = Inr h" and "d \<in> set jsRequiredDomains" and "h = p @ d @ q"
  shows "checkIfJavaScriptRequired w html u = Inr True
         \<and> (formDataGet fd (ascii ''url'') = Some u \<and> u \<noteq> [] \<longrightarrow>
              Launch \<in> set (fst (extractUrlData w fd)))
         \<and> ascii ''qiita.com.evil.example'' \<notin> set jsRequiredDomains
         \<and> list_ex (\<lambda>d. includesStr (ascii ''qiita.com.evil.example'') d) jsRequiredDomains
         \<and> ascii ''notnote.com'' \<notin> set jsRequiredDomains
         \<and> list_ex (\<lambda>d. includesStr (ascii ''notnote.com'') d) jsRequiredDomains"
proof -
  have "includesStr h d"
    using assms(3) includesStr_iff by blast
  with assms(2) have ex: "list_ex (\<lambda>d. includesStr h d) jsRequiredDomains"
    unfolding list_ex_iff by blast
  with assms(1) have chk: "checkIfJavaScriptRequired w html u = Inr True"
    by (simp add: checkIfJavaScriptRequired_def)
  have run: "formDataGet fd (ascii ''url'') = Some u \<and> u \<noteq> [] \<longrightarrow>
              Launch \<in> set (fst (extractUrlData w fd))"
    using rendered_when_domain_matches [OF _ _ assms(1) ex] launch_in_trace by blast
  have e1: "ascii ''qiita.com.evil.example'' \<notin> set jsRequiredDomains"
    by (simp add: jsRequiredDomains_def ascii_def)
  have e2: "list_ex (\<lambda>d. includesStr (ascii ''qiita.com.evil.example'') d) jsRequiredDomains"
    by (simp add: jsRequiredDomains_def ascii_def startsWith_def)
  have e3: "ascii ''notnote.com'' \<notin> set jsRequiredDomains"
    by (simp add: jsRequiredDomains_def ascii_def)
  have e4: "list_ex (\<lambda>d. includesStr (ascii ''notnote.com'') d) jsRequiredDomains"
    by (simp add: jsRequiredDomains_def ascii_def startsWith_def)
  from chk run e1 e2 e3 e4 show ?thesis by blast
qed

theorem allowlist_is_substring_match_witness:
  "urlHostname notnoteWorld exampleUrl = Inr (ascii ''notnote.com'')
   \<and> ascii ''note.com'' \<in> set jsRequiredDomains
   \<and> ascii ''notnote.com'' = ascii ''not'' @ ascii ''note.com'' @ []
   \<and> formDataGet exampleForm (ascii ''url'') = Some exampleUrl \<and> exampleUrl \<noteq> []
   \<and> checkIfJavaScriptRequired notnoteWorld exampleHtml exampleUrl = Inr True
   \<and> Launch \<in> set (fst (extractUrlData notnoteWorld exampleForm))"
proof -
  have a: "urlHostname notnoteWorld exampleUrl = Inr (ascii ''notnote.com'')"
    by (simp add: notnoteWorld_def)
  have b: "ascii ''note.com'' \<in> set jsRequiredDomains"
    by (simp add: jsRequiredDomains_def)
  have c: "ascii ''notnote.com'' = ascii ''not'' @ ascii ''note.com'' @ []"
    by (simp add: ascii_def)
  have d: "formDataGet exampleForm (ascii ''url'') = Some exampleUrl"
    by (simp add: formDataGet_def exampleForm_def)
  have e: "exampleUrl \<noteq> []"
    by (simp add: exampleUrl_def ascii_def)
  show ?thesis
    using allowlist_is_substring_match [OF a b c, of exampleHtml exampleForm] a b c d e
    by blast
qed

text \<open>
  C3, as stated, fails: the static fetch of a URL on \<open>qiita.com\<close> answers 200 with a
  body that has none of the framework markers, and the renderer is launched all the same,
  because the hostname is allow-listed.
\<close>

theorem static_page_without_markers_counterexample:
  "fetch qiitaWorld qiitaUrl
     = Inr \<lparr> status = 200, statusText = ascii ''OK'', responseText = Inr exampleHtml \<rparr>
   \<and> ok \<lparr> status = 200, statusText = ascii ''OK'', responseText = Inr exampleHtml \<rparr>
   \<and> \<not> list_ex (includesStr exampleHtml) jsIndicators
   \<and> urlHostname qiitaWorld qiitaUrl = Inr (ascii ''qiita.com'')
   \<and> Launch \<in> set (fst (extractUrlData qiitaWorld qiitaForm))"
proof -
  have a: "formDataGet qiitaForm (ascii ''url'') = Some qiitaUrl"
    by (simp add: formDataGet_def qiitaForm_def)
  have b: "qiitaUrl \<noteq> []"
    by (simp add: qiitaUrl_def ascii_def)
  have c: "urlHostname qiitaWorld qiitaUrl = Inr (ascii ''qiita.com'')"
    by (simp add: qiitaWorld_def)
  have d: "list_ex (includesStr (ascii ''qiita.com'')) jsRequiredDomains"
    by (simp add: jsRequiredDomains_def ascii_def startsWith_def)
  have run: "Launch \<in> set (fst (extractUrlData qiitaWorld qiitaForm))"
    using rendered_when_domain_matches [OF a b c d] launch_in_trace by blast
  have f: "fetch qiitaWorld qiitaUrl
     = Inr \<lparr> status = 200, statusText = ascii ''OK'', responseText = Inr exampleHtml \<rparr>"
    by (simp add: qiitaWorld_def plainWorld_def)
  have g: "ok \<lparr> status = 200, statusText = ascii ''OK'', responseText = Inr exampleHtml \<rparr>"
    by (simp add: ok_def)
  have h: "\<not> list_ex (includesStr exampleHtml) jsIndicators"
    by (simp add: jsIndicators_def exampleHtml_def ascii_def startsWith_def)
  from f g h c run show ?thesis by blast
qed

text \<open>
  C3, amended. When the static fetch answers 2xx, the body is read and contains none of
  the framework markers, and the hostname of the URL contains none of the allow-listed
  domains, no step of the renderer occurs: the trace is the one fetch, followed at most by
  the log of a later failure.
\<close>

theorem static_page_not_rendered:
  assumes "formDataGet fd (ascii ''url'') = Some u" and "u \<noteq> []"
    and "fetch w u = Inr resp" and "ok resp" and "responseText resp = Inr html"
    and "\<not> list_ex (\<lambda>i. includesStr html i) jsIndicators"
    and "urlHostname w u = Inr h"
    and "\<not> list_ex (\<lambda>d. includesStr h d) jsRequiredDomains"
  shows "\<not> list_ex isRendererEvent (fst (extractUrlData w fd))
         \<and> (fst (extractUrlData w fd) = [Fetch u]
              \<or> (\<exists>e. fst (extractUrlData w fd) = [Fetch u, ConsoleError e]))"
proof -
  have "staticFetch w u = ([Fetch u], html, False)"
    using assms(3,4,5,7,8,6) by (rule staticFetch_plain)
  then have "fst (obtainHtml w u) = [Fetch u]"
    by (simp add: obtainHtml_static)
  then have shape: "fst (extractUrlData w fd) = [Fetch u]
              \<or> (\<exists>e. fst (extractUrlData w fd) = [Fetch u, ConsoleError e])"
    using extractUrlData_trace [OF assms(1,2), of w] by auto
  then have "\<not> list_ex isRendererEvent (fst (extractUrlData w fd))"
    by auto
  with shape show ?thesis by blast
qed

theorem static_page_not_rendered_witness:
  "formDataGet exampleForm (ascii ''url'') = Some exampleUrl \<and> exampleUrl \<noteq> []
   \<and> ok \<lparr> status = 200, statusText = ascii ''OK'', responseText = Inr exampleHtml \<rparr>
   \<and> \<not> list_ex (\<lambda>i. includesStr exampleHtml i) jsIndicators
   \<and> \<not> list_ex (\<lambda>d. includesStr (ascii ''example.com'') d) jsRequiredDomains
   \<and> \<not> list_ex isRendererEvent (fst (extractUrlData plainWorld exampleForm))"
proof -
  have a: "formDataGet exampleForm (ascii ''url'') = Some exampleUrl"
    by (simp add: formDataGet_def exampleForm_def)
  have b: "exampleUrl \<noteq> []"
    by (simp add: exampleUrl_def ascii_def)
  have c: "fetch plainWorld exampleUrl
     = Inr \<lparr> status = 200, statusText = ascii ''OK'', responseText = Inr exampleHtml \<rparr>"
    by (simp add: plainWorld_def)
  have d: "ok \<lparr> status = 200, statusText = ascii ''OK'', responseText = Inr exampleHtml \<rparr>"
    by (simp add: ok_def)
  have e: "responseText \<lparr> status = 200, statusText = ascii ''OK'', responseText = Inr exampleHtml \<rparr>
             = Inr exampleHtml"
    by simp
  have f: "\<not> list_ex (\<lambda>i. includesStr exampleHtml i) jsIndicators"
    by (simp add: jsIndicators_def exampleHtml_def ascii_def startsWith_def)
  have g: "urlHostname plainWorld exampleUrl = Inr (ascii ''example.com'')"
    by (simp add: plainWorld_def)
  have h: "\<not> list_ex (\<lambda>d. includesStr (ascii ''example.com'') d) jsRequiredDomains"
    by (simp add: jsRequiredDomains_def ascii_def startsWith_def)
  show ?thesis
    using static_page_not_rendered [OF a b c d e f g h] a b d f h by blast
qed

lemma extractUrlData_result:
  assumes "formDataGet fd (ascii ''url'') = Some u" and "u \<noteq> []"
  shows "snd (extractUrlData w fd) =
           (case snd (obtainHtml w u) of
              Inl e \<Rightarrow> Inl (rethrow e)
            | Inr html \<Rightarrow>
                (case jsdom w html of
                   Inl e \<Rightarrow> Inl (rethrow e)
                 | Inr doc \<Rightarrow>
                     (case buildArticleData w doc u of
                        Inl e \<Rightarrow> Inl (rethrow e)
                      | Inr a \<Rightarrow> Inr a)))"
  using assms
  by (auto simp: extractUrlData_def extractionAttempt_def split: prod.splits sum.splits)

text \<open>
  C5. When the static fetch is rejected (network error, abort after the timeout) or answers
  a status outside 200..299, \<open>extractUrlData\<close> logs the error and goes straight to the
  renderer: the trace is the one fetch, the log, then the run of \<open>fetchWithPuppeteer\<close>;
  there is exactly one fetch in it (no retry) and nothing between the log and the launch
  (no backoff). The failed fetch does not decide the outcome: the result is the one the
  renderer, the parser and the record construction give.
\<close>

theorem failed_static_fetch_falls_back_to_renderer:
  assumes "formDataGet fd (ascii ''url'') = Some u" and "u \<noteq> []"
    and "(\<exists>e. fetch w u = Inl e) \<or> (\<exists>resp. fetch w u = Inr resp \<and> \<not> ok resp)"
  shows "(\<exists>x tr rest. fst (extractUrlData w fd) = Fetch u # ConsoleLog x # Launch # tr @ rest
            \<and> Launch # tr = fst (fetchWithPuppeteer w u)
            \<and> (rest = [] \<or> (\<exists>e. rest = [ConsoleError e])))
         \<and> length (filter isFetch (fst (extractUrlData w fd))) = 1
         \<and> snd (extractUrlData w fd) =
             (case snd (fetchWithPuppeteer w u) of
                Inl e \<Rightarrow> Inl (rethrow e)
              | Inr html \<Rightarrow>
                  (case jsdom w html of
                     Inl e \<Rightarrow> Inl (rethrow e)
                   | Inr doc \<Rightarrow>
                       (case buildArticleData w doc u of
                          Inl e \<Rightarrow> Inl (rethrow e)
                        | Inr a \<Rightarrow> Inr a)))"
proof -
  obtain x where sf: "staticFetch w u = ([Fetch u, ConsoleLog x], [], True)"
    using staticFetch_failed [OF assms(3)] by blast
  then have oh: "obtainHtml w u =
      ([Fetch u, ConsoleLog x] @ fst (fetchWithPuppeteer w u), snd (fetchWithPuppeteer w u))"
    using obtainHtml_rendered [of w u] by simp
  obtain tr where tr: "fst (fetchWithPuppeteer w u) = Launch # tr"
    using hd_fetchWithPuppeteer by blast
  have "fst (extractUrlData w fd) = Fetch u # ConsoleLog x # Launch # tr @ []
        \<or> (\<exists>e. fst (extractUrlData w fd) = Fetch u # ConsoleLog x # Launch # tr @ [ConsoleError e])"
    using extractUrlData_trace [OF assms(1,2), of w] oh tr by auto
  then have shape: "\<exists>x tr rest. fst (extractUrlData w fd) = Fetch u # ConsoleLog x # Launch # tr @ rest
            \<and> Launch # tr = fst (fetchWithPuppeteer w u)
            \<and> (rest = [] \<or> (\<exists>e. rest = [ConsoleError e]))"
    using tr by metis
  have nofetch: "filter isFetch (Launch # tr) = []"
    using fetchWithPuppeteer_no_fetch [of w u] tr by simp
  have once: "length (filter isFetch (fst (extractUrlData w fd))) = 1"
    using extractUrlData_trace [OF assms(1,2), of w] oh tr nofetch by auto
  have res: "snd (extractUrlData w fd) =
             (case snd (fetchWithPuppeteer w u) of
                Inl e \<Rightarrow> Inl (rethrow e)
              | Inr html \<Rightarrow>
                  (case jsdom w html of
                     Inl e \<Rightarrow> Inl (rethrow e)
                   | Inr doc \<Rightarrow>
                       (case buildArticleData w doc u of
                          Inl e \<Rightarrow> Inl (rethrow e)
                        | Inr a \<Rightarrow> Inr a)))"
    using extractUrlData_result [OF assms(1,2), of w] oh by simp
  from shape once res show ?thesis by blast
qed


text \<open>A complete run: the static fetch answers 404, the renderer delivers a page
  without metadata, and the record holds the defaults.\<close>

lemma extractUrlData_after_404: "extractUrlData notFoundWorld exampleForm =
  ([Fetch exampleUrl, ConsoleLog (ErrorObj (ascii ''HTTP 404: Not Found'')), Launch, NewPage,
    SetUserAgent userAgent, Goto exampleUrl, Settle 2000, Content, Close],
   Inr \<lparr> url = exampleUrl, siteName = ascii ''example.com'', title = defaultTitle,
         description = [], publishedAt = ascii ''2025-01-01T00:00:00.000Z'', thumbnail = [],
         content = ascii ''hi'', isLiked = None, isArchived = None \<rparr>)"
  by (simp add: extractUrlData_def extractionAttempt_def obtainHtml_def staticFetch_def
      fetchWithPuppeteer_def renderPage_def notFoundWorld_def plainWorld_def exampleForm_def
      formDataGet_def exampleUrl_def ok_def numberToString.simps
      buildArticleData_def siteNameSource_def titleSource_def descriptionSource_def
      publishedAtSource_def thumbnailSource_def getContent_def getMetaContent_def
      metaSelectors_def contentSelectors_def noiseSelectors_def querySelector_def
      titleSecondPart_def textOf_def timeDatetime_def orElse_def orElseOpt_def
      bareDocument_def classList_def getAttribute_def
      truncateToVarCharLimit_def normalizeText_def trim_def trimStart_def slice0_def
      isWhiteSpace_def whiteSpaceChars_def space_def defaultTitle_def exampleHtml_def
      ascii_def Let_def)

theorem failed_static_fetch_falls_back_to_renderer_witness:
  "formDataGet exampleForm (ascii ''url'') = Some exampleUrl \<and> exampleUrl \<noteq> []
   \<and> (\<exists>resp. fetch notFoundWorld exampleUrl = Inr resp \<and> \<not> ok resp)
   \<and> length (filter isFetch (fst (extractUrlData notFoundWorld exampleForm))) = 1
   \<and> (\<exists>a. snd (extractUrlData notFoundWorld exampleForm) = Inr a)"
proof -
  have a: "formDataGet exampleForm (ascii ''url'') = Some exampleUrl"
    by (simp add: formDataGet_def exampleForm_def)
  have b: "exampleUrl \<noteq> []"
    by (simp add: exampleUrl_def ascii_def)
  have "fetch notFoundWorld exampleUrl
          = Inr \<lparr> status = 404, statusText = ascii ''Not Found'', responseText = Inr [] \<rparr>
        \<and> \<not> ok \<lparr> status = 404, statusText = ascii ''Not Found'', responseText = Inr [] \<rparr>"
    by (simp add: notFoundWorld_def ok_def)
  then have c: "\<exists>resp. fetch notFoundWorld exampleUrl = Inr resp \<and> \<not> ok resp"
    by blast
  then have c': "(\<exists>e. fetch notFoundWorld exampleUrl = Inl e)
                 \<or> (\<exists>resp. fetch notFoundWorld exampleUrl = Inr resp \<and> \<not> ok resp)"
    by blast
  have d: "\<exists>a. snd (extractUrlData notFoundWorld exampleForm) = Inr a"
    by (simp add: extractUrlData_after_404)
  show ?thesis
    using failed_static_fetch_falls_back_to_renderer [OF a b c'] a b c d by blast
qed

section \<open>The browser is closed\<close>

lemma close_not_in_renderPage: "Close \<notin> set (fst (renderPage w u))"
  using renderPage_events [of w u] by auto

lemma launch_not_in_renderPage: "Launch \<notin> set (fst (renderPage w u))"
  using renderPage_events [of w u] by auto

text \<open>
  C9. In every run of \<open>fetchWithPuppeteer\<close> in which the launch succeeded, whatever the
  later steps do (opening the page, setting the user agent, navigating and capturing the
  content may each throw), \<open>browser.close()\<close> is called exactly once, after every other
  step and before the function returns or throws: the trace is the launch, the steps, then
  the close. When closing does not throw, the outcome of the steps is passed on unchanged,
  be it the HTML or the exception. When the launch itself throws there is no browser, and
  nothing else happens.
\<close>

theorem fetchWithPuppeteer_closes_browser:
  "(launch w = None \<longrightarrow>
      fst (fetchWithPuppeteer w u) = Launch # fst (renderPage w u) @ [Close]
      \<and> Close \<notin> set (fst (renderPage w u))
      \<and> length (filter (\<lambda>ev. ev = Close) (fst (fetchWithPuppeteer w u))) = 1
      \<and> last (fst (fetchWithPuppeteer w u)) = Close)
   \<and> (launch w = None \<and> browserClose w = None \<longrightarrow>
        snd (fetchWithPuppeteer w u) = snd (renderPage w u))
   \<and> (\<forall>e. launch w = None \<and> browserClose w = Some e \<longrightarrow>
        snd (fetchWithPuppeteer w u) = Inl e)
   \<and> (\<forall>e. launch w = None \<and> newPage w = None \<and> setUserAgent w = None
           \<and> goto w u = Some e \<and> browserClose w = None \<longrightarrow>
        fetchWithPuppeteer w u
          = ([Launch, NewPage, SetUserAgent userAgent, Goto u, Close], Inl e))
   \<and> (\<forall>e. launch w = Some e \<longrightarrow> fetchWithPuppeteer w u = ([Launch], Inl e))"
proof -
  have shape: "launch w = None \<longrightarrow>
      fst (fetchWithPuppeteer w u) = Launch # fst (renderPage w u) @ [Close]"
    by (auto simp: fetchWithPuppeteer_def split: option.splits prod.splits)
  have nc: "Close \<notin> set (fst (renderPage w u))"
    by (rule close_not_in_renderPage)
  then have "filter (\<lambda>ev. ev = Close) (fst (renderPage w u)) = []"
    by (auto simp: filter_empty_conv)
  with shape have once: "launch w = None \<longrightarrow>
      length (filter (\<lambda>ev. ev = Close) (fst (fetchWithPuppeteer w u))) = 1"
    by simp
  from shape have lst: "launch w = None \<longrightarrow> last (fst (fetchWithPuppeteer w u)) = Close"
    by simp
  have pass: "launch w = None \<and> browserClose w = None \<longrightarrow>
        snd (fetchWithPuppeteer w u) = snd (renderPage w u)"
    by (auto simp: fetchWithPuppeteer_def split: option.splits prod.splits)
  have closeThrows: "\<forall>e. launch w = None \<and> browserClose w = Some e \<longrightarrow>
        snd (fetchWithPuppeteer w u) = Inl e"
    by (auto simp: fetchWithPuppeteer_def split: option.splits prod.splits)
  have nav: "\<forall>e. launch w = None \<and> newPage w = None \<and> setUserAgent w = None
           \<and> goto w u = Some e \<and> browserClose w = None \<longrightarrow>
        fetchWithPuppeteer w u
          = ([Launch, NewPage, SetUserAgent userAgent, Goto u, Close], Inl e)"
    by (auto simp: fetchWithPuppeteer_def renderPage_def)
  have nolaunch: "\<forall>e. launch w = Some e \<longrightarrow> fetchWithPuppeteer w u = ([Launch], Inl e)"
    by (auto simp: fetchWithPuppeteer_def)
  from shape nc once lst pass closeThrows nav nolaunch show ?thesis by blast
qed

theorem fetchWithPuppeteer_closes_browser_witness:
  "launch navigationFailsWorld = None \<and> newPage navigationFailsWorld = None
   \<and> setUserAgent navigationFailsWorld = None
   \<and> goto navigationFailsWorld exampleUrl = Some (ErrorObj (ascii ''Navigation timeout''))
   \<and> browserClose navigationFailsWorld = None
   \<and> fetchWithPuppeteer navigationFailsWorld exampleUrl
       = ([Launch, NewPage, SetUserAgent userAgent, Goto exampleUrl, Close],
          Inl (ErrorObj (ascii ''Navigation timeout'')))
   \<and> last (fst (fetchWithPuppeteer navigationFailsWorld exampleUrl)) = Close"
proof -
  have a: "launch navigationFailsWorld = None \<and> newPage navigationFailsWorld = None
   \<and> setUserAgent navigationFailsWorld = None
   \<and> goto navigationFailsWorld exampleUrl = Some (ErrorObj (ascii ''Navigation timeout''))
   \<and> browserClose navigationFailsWorld = None"
    by (simp add: navigationFailsWorld_def plainWorld_def)
  show ?thesis
    using fetchWithPuppeteer_closes_browser [of navigationFailsWorld exampleUrl] a by simp
qed

section \<open>Failures\<close>

lemma renderPage_error:
  assumes "snd (renderPage w u) = Inl e"
  shows "newPage w = Some e \<or> setUserAgent w = Some e \<or> goto w u = Some e
         \<or> pageContent w u = Inl e"
  using assms by (auto simp: renderPage_def split: option.splits sum.splits)

lemma fetchWithPuppeteer_error:
  assumes "snd (fetchWithPuppeteer w u) = Inl e"
  shows "launch w = Some e \<or> browserClose w = Some e \<or> snd (renderPage w u) = Inl e"
  using assms by (auto simp: fetchWithPuppeteer_def split: option.splits prod.splits)

lemma obtainHtml_error:
  assumes "snd (obtainHtml w u) = Inl e"
  shows "snd (fetchWithPuppeteer w u) = Inl e"
  using assms by (auto simp: obtainHtml_def split: prod.splits if_splits)

lemma buildArticleData_error:
  assumes "buildArticleData w doc u = Inl e"
  shows "urlHostname w u = Inl e"
  using assms
  by (auto simp: buildArticleData_def siteNameSource_def Let_def split: sum.splits if_splits)

lemma rethrow_not_missing: "rethrow e \<noteq> ErrorObj missingUrlMessage"
  by (cases e) (simp_all add: rethrow_def failurePrefix_def missingUrlMessage_def)

lemma extractUrlData_missing:
  assumes "formDataGet fd (ascii ''url'') = None \<or> formDataGet fd (ascii ''url'') = Some []"
  shows "extractUrlData w fd = ([], Inl (ErrorObj missingUrlMessage))"
  using assms by (auto simp: extractUrlData_def)

lemma extractUrlData_error_origin:
  assumes "formDataGet fd (ascii ''url'') = Some u" and "u \<noteq> []"
    and "snd (extractUrlData w fd) = Inl x"
  shows "\<exists>e. x = rethrow e \<and> last (fst (extractUrlData w fd)) = ConsoleError e
           \<and> (launch w = Some e \<or> newPage w = Some e \<or> setUserAgent w = Some e
               \<or> goto w u = Some e \<or> pageContent w u = Inl e \<or> browserClose w = Some e
               \<or> (\<exists>html. jsdom w html = Inl e) \<or> urlHostname w u = Inl e)"
proof -
  from assms(3) extractUrlData_present [OF assms(1,2), of w]
  obtain e where att: "snd (extractionAttempt w u) = Inl e"
    and x: "x = rethrow e"
    and tr: "fst (extractUrlData w fd) = fst (obtainHtml w u) @ [ConsoleError e]"
    by (auto split: sum.splits)
  from att have "snd (obtainHtml w u) = Inl e
      \<or> (\<exists>html. jsdom w html = Inl e)
      \<or> (\<exists>doc. buildArticleData w doc u = Inl e)"
    by (auto simp: extractionAttempt_def split: prod.splits sum.splits)
  then have "launch w = Some e \<or> newPage w = Some e \<or> setUserAgent w = Some e
               \<or> goto w u = Some e \<or> pageContent w u = Inl e \<or> browserClose w = Some e
               \<or> (\<exists>html. jsdom w html = Inl e) \<or> urlHostname w u = Inl e"
    using obtainHtml_error [of w u e] fetchWithPuppeteer_error [of w u e]
      renderPage_error [of w u e] buildArticleData_error [of w _ u e]
    by blast
  with x tr show ?thesis by auto
qed

text \<open>
  C4. \<open>extractUrlData\<close> fails in two ways only. When the form has no \<open>url\<close> entry or
  an empty one, it throws the missing-URL error at once: the trace is empty, nothing was
  fetched or rendered. Otherwise whatever the renderer, the parser or the construction of
  the record throws is logged and thrown again as one error whose message is the fixed
  prefix followed by the message of the original error (by the fixed text for an unknown
  error when what was thrown is not an \<open>Error\<close>); every failure of the operation is of
  this form, its original comes from the renderer, the parser or the URL, and it is never
  mistaken for the missing-URL error. The result is either an error or a complete record.
\<close>

theorem extractUrlData_failure_modes:
  "((formDataGet fd (ascii ''url'') = None \<or> formDataGet fd (ascii ''url'') = Some []) \<longrightarrow>
       extractUrlData w fd = ([], Inl (ErrorObj missingUrlMessage)))
   \<and> (\<forall>u. formDataGet fd (ascii ''url'') = Some u \<and> u \<noteq> [] \<longrightarrow>
         (\<forall>e. snd (obtainHtml w u) = Inl e \<longrightarrow>
               snd (extractUrlData w fd) = Inl (rethrow e))
       \<and> (\<forall>html e. snd (obtainHtml w u) = Inr html \<and> jsdom w html = Inl e \<longrightarrow>
               snd (extractUrlData w fd) = Inl (rethrow e))
       \<and> (\<forall>html doc e. snd (obtainHtml w u) = Inr html \<and> jsdom w html = Inr doc
               \<and> buildArticleData w doc u = Inl e \<longrightarrow>
               snd (extractUrlData w fd) = Inl (rethrow e))
       \<and> (\<forall>html doc a. snd (obtainHtml w u) = Inr html \<and> jsdom w html = Inr doc
               \<and> buildArticleData w doc u = Inr a \<longrightarrow>
               snd (extractUrlData w fd) = Inr a)
       \<and> (\<forall>x. snd (extractUrlData w fd) = Inl x \<longrightarrow>
             (\<exists>e. x = rethrow e \<and> last (fst (extractUrlData w fd)) = ConsoleError e
                \<and> (launch w = Some e \<or> newPage w = Some e \<or> setUserAgent w = Some e
                    \<or> goto w u = Some e \<or> pageContent w u = Inl e
                    \<or> browserClose w = Some e
                    \<or> (\<exists>html. jsdom w html = Inl e) \<or> urlHostname w u = Inl e))))
   \<and> (\<forall>m. rethrow (ErrorObj m) = ErrorObj (failurePrefix @ m))
   \<and> rethrow NonError = ErrorObj (failurePrefix @ unknownErrorMessage)
   \<and> (snd (extractUrlData w fd) = Inl (ErrorObj missingUrlMessage) \<longleftrightarrow>
        formDataGet fd (ascii ''url'') = None \<or> formDataGet fd (ascii ''url'') = Some [])"
proof -
  have missing: "(formDataGet fd (ascii ''url'') = None \<or> formDataGet fd (ascii ''url'') = Some []) \<longrightarrow>
       extractUrlData w fd = ([], Inl (ErrorObj missingUrlMessage))"
    using extractUrlData_missing by blast
  have present: "\<forall>u. formDataGet fd (ascii ''url'') = Some u \<and> u \<noteq> [] \<longrightarrow>
         (\<forall>e. snd (obtainHtml w u) = Inl e \<longrightarrow>
               snd (extractUrlData w fd) = Inl (rethrow e))
       \<and> (\<forall>html e. snd (obtainHtml w u) = Inr html \<and> jsdom w html = Inl e \<longrightarrow>
               snd (extractUrlData w fd) = Inl (rethrow e))
       \<and> (\<forall>html doc e. snd (obtainHtml w u) = Inr html \<and> jsdom w html = Inr doc
               \<and> buildArticleData w doc u = Inl e \<longrightarrow>
               snd (extractUrlData w fd) = Inl (rethrow e))
       \<and> (\<forall>html doc a. snd (obtainHtml w u) = Inr html \<and> jsdom w html = Inr doc
               \<and> buildArticleData w doc u = Inr a \<longrightarrow>
               snd (extractUrlData w fd) = Inr a)
       \<and> (\<forall>x. snd (extractUrlData w fd) = Inl x \<longrightarrow>
             (\<exists>e. x = rethrow e \<and> last (fst (extractUrlData w fd)) = ConsoleError e
                \<and> (launch w = Some e \<or> newPage w = Some e \<or> setUserAgent w = Some e
                    \<or> goto w u = Some e \<or> pageContent w u = Inl e
                    \<or> browserClose w = Some e
                    \<or> (\<exists>html. jsdom w html = Inl e) \<or> urlHostname w u = Inl e)))"
  proof (intro allI impI, elim conjE)
    fix u
    assume u: "formDataGet fd (ascii ''url'') = Some u" and ne: "u \<noteq> []"
    note res = extractUrlData_result [OF u ne, of w]
    have 1: "\<forall>e. snd (obtainHtml w u) = Inl e \<longrightarrow>
               snd (extractUrlData w fd) = Inl (rethrow e)"
      using res by simp
    have 2: "\<forall>html e. snd (obtainHtml w u) = Inr html \<and> jsdom w html = Inl e \<longrightarrow>
               snd (extractUrlData w fd) = Inl (rethrow e)"
      using res by simp
    have 3: "\<forall>html doc e. snd (obtainHtml w u) = Inr html \<and> jsdom w html = Inr doc
               \<and> buildArticleData w doc u = Inl e \<longrightarrow>
               snd (extractUrlData w fd) = Inl (rethrow e)"
      using res by simp
    have 4: "\<forall>html doc a. snd (obtainHtml w u) = Inr html \<and> jsdom w html = Inr doc
               \<and> buildArticleData w doc u = Inr a \<longrightarrow>
               snd (extractUrlData w fd) = Inr a"
      using res by simp
    have 5: "\<forall>x. snd (extractUrlData w fd) = Inl x \<longrightarrow>
             (\<exists>e. x = rethrow e \<and> last (fst (extractUrlData w fd)) = ConsoleError e
                \<and> (launch w = Some e \<or> newPage w = Some e \<or> setUserAgent w = Some e
                    \<or> goto w u = Some e \<or> pageContent w u = Inl e
                    \<or> browserClose w = Some e
                    \<or> (\<exists>html. jsdom w html = Inl e) \<or> urlHostname w u = Inl e))"
      using extractUrlData_error_origin [OF u ne] by blast
    from 1 2 3 4 5
    show "(\<forall>e. snd (obtainHtml w u) = Inl e \<longrightarrow>
               snd (extractUrlData w fd) = Inl (rethrow e))
       \<and> (\<forall>html e. snd (obtainHtml w u) = Inr html \<and> jsdom w html = Inl e \<longrightarrow>
               snd (extractUrlData w fd) = Inl (rethrow e))
       \<and> (\<forall>html doc e. snd (obtainHtml w u) = Inr html \<and> jsdom w html = Inr doc
               \<and> buildArticleData w doc u = Inl e \<longrightarrow>
               snd (extractUrlData w fd) = Inl (rethrow e))
       \<and> (\<forall>html doc a. snd (obtainHtml w u) = Inr html \<and> jsdom w html = Inr doc
               \<and> buildArticleData w doc u = Inr a \<longrightarrow>
               snd (extractUrlData w fd) = Inr a)
       \<and> (\<forall>x. snd (extractUrlData w fd) = Inl x \<longrightarrow>
             (\<exists>e. x = rethrow e \<and> last (fst (extractUrlData w fd)) = ConsoleError e
                \<and> (launch w = Some e \<or> newPage w = Some e \<or> setUserAgent w = Some e
                    \<or> goto w u = Some e \<or> pageContent w u = Inl e
                    \<or> browserClose w = Some e
                    \<or> (\<exists>html. jsdom w html = Inl e) \<or> urlHostname w u = Inl e)))"
      by (intro conjI)
  qed
  have msg: "\<forall>m. rethrow (ErrorObj m) = ErrorObj (failurePrefix @ m)"
    by (simp add: rethrow_def)
  have unknown: "rethrow NonError = ErrorObj (failurePrefix @ unknownErrorMessage)"
    by (simp add: rethrow_def)
  have iff: "snd (extractUrlData w fd) = Inl (ErrorObj missingUrlMessage) \<longleftrightarrow>
        formDataGet fd (ascii ''url'') = None \<or> formDataGet fd (ascii ''url'') = Some []"
  proof
    assume l: "snd (extractUrlData w fd) = Inl (ErrorObj missingUrlMessage)"
    show "formDataGet fd (ascii ''url'') = None \<or> formDataGet fd (ascii ''url'') = Some []"
    proof (rule ccontr)
      assume "\<not> (formDataGet fd (ascii ''url'') = None \<or> formDataGet fd (ascii ''url'') = Some [])"
      then obtain u where u: "formDataGet fd (ascii ''url'') = Some u" and ne: "u \<noteq> []"
        by auto
      from extractUrlData_error_origin [OF u ne l] rethrow_not_missing
      show False by metis
    qed
  next
    assume "formDataGet fd (ascii ''url'') = None \<or> formDataGet fd (ascii ''url'') = Some []"
    then show "snd (extractUrlData w fd) = Inl (ErrorObj missingUrlMessage)"
      by (simp add: extractUrlData_missing)
  qed
  from missing present msg unknown iff show ?thesis by (intro conjI)
qed

theorem extractUrlData_failure_modes_witness:
  "formDataGet [] (ascii ''url'') = None
   \<and> extractUrlData navigationFailsWorld [] = ([], Inl (ErrorObj missingUrlMessage))
   \<and> formDataGet exampleForm (ascii ''url'') = Some exampleUrl \<and> exampleUrl \<noteq> []
   \<and> snd (obtainHtml navigationFailsWorld exampleUrl)
        = Inl (ErrorObj (ascii ''Navigation timeout''))
   \<and> snd (extractUrlData navigationFailsWorld exampleForm)
        = Inl (ErrorObj (failurePrefix @ ascii ''Navigation timeout''))"
proof -
  have a: "formDataGet [] (ascii ''url'') = None"
    by (simp add: formDataGet_def)
  have b: "formDataGet exampleForm (ascii ''url'') = Some exampleUrl"
    by (simp add: formDataGet_def exampleForm_def)
  have c: "exampleUrl \<noteq> []"
    by (simp add: exampleUrl_def ascii_def)
  have d: "snd (obtainHtml navigationFailsWorld exampleUrl)
             = Inl (ErrorObj (ascii ''Navigation timeout''))"
    by (simp add: obtainHtml_def staticFetch_def fetchWithPuppeteer_def renderPage_def
        navigationFailsWorld_def plainWorld_def)
  have e: "extractUrlData navigationFailsWorld [] = ([], Inl (ErrorObj missingUrlMessage))"
    using extractUrlData_failure_modes [of "[]" navigationFailsWorld] a by blast
  have "snd (extractUrlData navigationFailsWorld exampleForm)
          = Inl (rethrow (ErrorObj (ascii ''Navigation timeout'')))"
    using extractUrlData_failure_modes [of exampleForm navigationFailsWorld] b c d by blast
  moreover have "rethrow (ErrorObj (ascii ''Navigation timeout''))
          = ErrorObj (failurePrefix @ ascii ''Navigation timeout'')"
    using extractUrlData_failure_modes [of exampleForm navigationFailsWorld] by blast
  ultimately show ?thesis using a b c d e by simp
qed

section \<open>Body-content extraction\<close>

lemma firstMatch_None_iff:
  "firstMatch doc sels = None \<longleftrightarrow> (\<forall>s\<in>set sels. querySelector doc s = None)"
  by (induction sels) (auto split: option.splits)

lemma firstMatch_at:
  assumes "i < length sels" and "\<forall>j<i. querySelector doc (sels ! j) = None"
    and "querySelector doc (sels ! i) = Some el"
  shows "firstMatch doc sels = Some el"
  using assms
proof (induction sels arbitrary: i)
  case Nil
  then show ?case by simp
next
  case (Cons s sels)
  show ?case
  proof (cases i)
    case 0
    with Cons.prems show ?thesis by simp
  next
    case (Suc k)
    with Cons.prems have "querySelector doc s = None" by auto
    moreover have "firstMatch doc sels = Some el"
    proof (rule Cons.IH [of k])
      show "k < length sels" using Cons.prems Suc by simp
      show "\<forall>j<k. querySelector doc (sels ! j) = None"
        using Cons.prems(2) Suc by auto
      show "querySelector doc (sels ! k) = Some el"
        using Cons.prems(3) Suc by simp
    qed
    ultimately show ?thesis by simp
  qed
qed

lemma matches_removeMatching: "matches s (removeMatching sels n) = matches s n"
  by (cases n; cases s) (simp_all add: classList_def getAttribute_def)

lemma elements_unmatched_after_removal:
  "\<not> list_ex (\<lambda>s. matches s n) sels \<Longrightarrow>
     \<forall>d\<in>set (elements (removeMatching sels n)). \<not> list_ex (\<lambda>s. matches s d) sels"
proof (induction n)
  case (Element t as cs)
  have hd: "\<not> list_ex (\<lambda>s. matches s (removeMatching sels (Element t as cs))) sels"
    using Element.prems by (simp add: matches_removeMatching del: removeMatching.simps)
  have "\<forall>c\<in>set (filter (\<lambda>c. \<not> list_ex (\<lambda>s. matches s c) sels) cs).
          \<forall>d\<in>set (elements (removeMatching sels c)). \<not> list_ex (\<lambda>s. matches s d) sels"
    using Element.IH by auto
  with hd show ?case by (auto simp: list_ex_iff)
next
  case (Text s)
  show ?case by simp
next
  case (Comment s)
  show ?case by simp
qed

lemma descendants_unmatched_after_removal:
  "\<forall>d\<in>set (tl (elements (removeMatching sels n))). \<not> list_ex (\<lambda>s. matches s d) sels"
proof (cases n)
  case (Element t as cs)
  have "\<forall>c\<in>set (filter (\<lambda>c. \<not> list_ex (\<lambda>s. matches s c) sels) cs).
          \<forall>d\<in>set (elements (removeMatching sels c)). \<not> list_ex (\<lambda>s. matches s d) sels"
    using elements_unmatched_after_removal by auto
  with Element show ?thesis by auto
next
  case (Text s)
  then show ?thesis by simp
next
  case (Comment s)
  then show ?thesis by simp
qed

lemma matches_only_elements: "matches s n \<Longrightarrow> n \<in> set (elements n)"
  by (cases n; cases s) auto

lemma removeMatching_id:
  "\<forall>d\<in>set (tl (elements n)). \<not> list_ex (\<lambda>s. matches s d) sels \<Longrightarrow> removeMatching sels n = n"
proof (induction n)
  case (Element t as cs)
  have below: "\<forall>c\<in>set cs. \<forall>d\<in>set (elements c). \<not> list_ex (\<lambda>s. matches s d) sels"
    using Element.prems by auto
  have keep: "\<forall>c\<in>set cs. \<not> list_ex (\<lambda>s. matches s c) sels"
  proof
    fix c assume c: "c \<in> set cs"
    show "\<not> list_ex (\<lambda>s. matches s c) sels"
    proof
      assume "list_ex (\<lambda>s. matches s c) sels"
      then obtain s where s: "s \<in> set sels" "matches s c" by (auto simp: list_ex_iff)
      then have "c \<in> set (elements c)" using matches_only_elements by blast
      with below c s show False by (auto simp: list_ex_iff)
    qed
  qed
  then have f: "filter (\<lambda>c. \<not> list_ex (\<lambda>s. matches s c) sels) cs = cs"
    by (simp add: filter_id_conv)
  have "\<forall>c\<in>set cs. removeMatching sels c = c"
  proof
    fix c assume c: "c \<in> set cs"
    have "\<forall>d\<in>set (tl (elements c)). \<not> list_ex (\<lambda>s. matches s d) sels"
      using below c by (metis list.sel(2) list.set_sel(2))
    with Element.IH c show "removeMatching sels c = c" by blast
  qed
  then have "map (removeMatching sels) cs = cs"
    by (simp add: map_idI)
  with f show ?case by simp
next
  case (Text s)
  show ?case by simp
next
  case (Comment s)
  show ?case by simp
qed

lemma orElse_Nil: "orElse s [] = s"
  by (simp add: orElse_def)

lemma length_getContent: "length (getContent doc) \<le> 1000"
proof -
  have "length (take 300 s) \<le> 1000" and "length (take 1000 s) \<le> 1000" for s :: jsstring
    by simp_all
  then show ?thesis
    by (simp add: getContent_def orElse_Nil slice0_def del: length_take split: option.splits)
qed

text \<open>
  C6. \<open>getContent\<close> walks the fixed list of container selectors in order. For the first
  selector that matches, with the first element it matches in document order, the result
  is the text content of that element, with every descendant that matches script, style,
  nav, header, footer or aside removed (and nobody else), trimmed and then cut at 300 code
  units. If none matches, the same is done with the body element and a cut at 1000. If
  there is no body either, the result is empty.
\<close>

theorem getContent_first_container_then_body:
  "(\<forall>i el. i < length contentSelectors
        \<and> (\<forall>j<i. querySelector doc (contentSelectors ! j) = None)
        \<and> querySelector doc (contentSelectors ! i) = Some el \<longrightarrow>
        getContent doc = take 300 (trim (textContent (removeMatching noiseSelectors el))))
   \<and> (\<forall>b. (\<forall>s\<in>set contentSelectors. querySelector doc s = None)
        \<and> querySelector doc (TypeSel (ascii ''body'')) = Some b \<longrightarrow>
        getContent doc = take 1000 (trim (textContent (removeMatching noiseSelectors b))))
   \<and> ((\<forall>s\<in>set contentSelectors. querySelector doc s = None)
        \<and> querySelector doc (TypeSel (ascii ''body'')) = None \<longrightarrow>
        getContent doc = [])
   \<and> (\<forall>el. \<forall>d\<in>set (tl (elements (removeMatching noiseSelectors el))).
          \<forall>s\<in>set noiseSelectors. \<not> matches s d)
   \<and> (\<forall>el. (\<forall>d\<in>set (tl (elements el)). \<forall>s\<in>set noiseSelectors. \<not> matches s d) \<longrightarrow>
          removeMatching noiseSelectors el = el)
   \<and> length (getContent doc) \<le> 1000
   \<and> contentSelectors =
       [TypeSel (ascii ''article''), ClassSel (ascii ''post-content''),
        ClassSel (ascii ''entry-content''), ClassSel (ascii ''content''),
        ClassSel (ascii ''post''), TypeSel (ascii ''main''), ClassSel (ascii ''article-body''),
        ClassSel (ascii ''markdown-section''), ClassSel (ascii ''it-MdContent'')]
   \<and> noiseSelectors =
       [TypeSel (ascii ''script''), TypeSel (ascii ''style''), TypeSel (ascii ''nav''),
        TypeSel (ascii ''header''), TypeSel (ascii ''footer''), TypeSel (ascii ''aside'')]"
proof -
  have container: "\<forall>i el. i < length contentSelectors
        \<and> (\<forall>j<i. querySelector doc (contentSelectors ! j) = None)
        \<and> querySelector doc (contentSelectors ! i) = Some el \<longrightarrow>
        getContent doc = take 300 (trim (textContent (removeMatching noiseSelectors el)))"
  proof (intro allI impI, elim conjE)
    fix i el
    assume "i < length contentSelectors"
      and "\<forall>j<i. querySelector doc (contentSelectors ! j) = None"
      and "querySelector doc (contentSelectors ! i) = Some el"
    then have "firstMatch doc contentSelectors = Some el"
      by (rule firstMatch_at)
    then show "getContent doc = take 300 (trim (textContent (removeMatching noiseSelectors el)))"
      by (simp add: getContent_def orElse_Nil slice0_def)
  qed
  have body: "\<forall>b. (\<forall>s\<in>set contentSelectors. querySelector doc s = None)
        \<and> querySelector doc (TypeSel (ascii ''body'')) = Some b \<longrightarrow>
        getContent doc = take 1000 (trim (textContent (removeMatching noiseSelectors b)))"
  proof (intro allI impI, elim conjE)
    fix b
    assume "\<forall>s\<in>set contentSelectors. querySelector doc s = None"
      and b: "querySelector doc (TypeSel (ascii ''body'')) = Some b"
    then have "firstMatch doc contentSelectors = None"
      by (simp add: firstMatch_None_iff)
    with b show "getContent doc = take 1000 (trim (textContent (removeMatching noiseSelectors b)))"
      by (simp add: getContent_def orElse_Nil slice0_def)
  qed
  have nobody: "(\<forall>s\<in>set contentSelectors. querySelector doc s = None)
        \<and> querySelector doc (TypeSel (ascii ''body'')) = None \<longrightarrow>
        getContent doc = []"
  proof (intro impI, elim conjE)
    assume "\<forall>s\<in>set contentSelectors. querySelector doc s = None"
      and b: "querySelector doc (TypeSel (ascii ''body'')) = None"
    then have "firstMatch doc contentSelectors = None"
      by (simp add: firstMatch_None_iff)
    with b show "getContent doc = []"
      by (simp add: getContent_def)
  qed
  have stripped: "\<forall>el. \<forall>d\<in>set (tl (elements (removeMatching noiseSelectors el))).
          \<forall>s\<in>set noiseSelectors. \<not> matches s d"
    using descendants_unmatched_after_removal [of noiseSelectors]
    by (auto simp: list_ex_iff)
  have kept: "\<forall>el. (\<forall>d\<in>set (tl (elements el)). \<forall>s\<in>set noiseSelectors. \<not> matches s d) \<longrightarrow>
          removeMatching noiseSelectors el = el"
    using removeMatching_id [of _ noiseSelectors] by (auto simp: list_ex_iff)
  have len: "length (getContent doc) \<le> 1000"
    by (rule length_getContent)
  note lists = contentSelectors_def noiseSelectors_def
  from container body nobody stripped kept len lists show ?thesis
    by - (intro conjI; assumption)
qed


theorem getContent_first_container_then_body_witness:
  "3 < length contentSelectors
   \<and> querySelector articleDocument (contentSelectors ! 0) = None
   \<and> querySelector articleDocument (contentSelectors ! 1) = None
   \<and> querySelector articleDocument (contentSelectors ! 2) = None
   \<and> querySelector articleDocument (contentSelectors ! 3) = Some contentDiv
   \<and> getContent articleDocument = ascii ''Hello world''"
proof -
  note defs = contentSelectors_def articleDocument_def contentDiv_def querySelector_def
    classList_def getAttribute_def isAsciiWhitespace_def ascii_def
  have l: "3 < length contentSelectors"
    by (simp add: contentSelectors_def)
  have q0: "querySelector articleDocument (contentSelectors ! 0) = None"
    by (simp add: defs)
  have q1: "querySelector articleDocument (contentSelectors ! 1) = None"
    by (simp add: defs)
  have q2: "querySelector articleDocument (contentSelectors ! 2) = None"
    by (simp add: defs)
  have q3: "querySelector articleDocument (contentSelectors ! 3) = Some contentDiv"
    by (simp add: defs)
  have before: "\<forall>j<3. querySelector articleDocument (contentSelectors ! j) = None"
  proof (intro allI impI)
    fix j :: nat
    assume "j < 3"
    then have "j = 0 \<or> j = 1 \<or> j = 2" by arith
    with q0 q1 q2 show "querySelector articleDocument (contentSelectors ! j) = None"
      by blast
  qed
  have "getContent articleDocument
          = take 300 (trim (textContent (removeMatching noiseSelectors contentDiv)))"
    using getContent_first_container_then_body [of articleDocument] l before q3 by blast
  also have "\<dots> = ascii ''Hello world''"
    by (simp add: contentDiv_def noiseSelectors_def trim_def trimStart_def isWhiteSpace_def
        whiteSpaceChars_def ascii_def)
  finally show ?thesis using l q0 q1 q2 q3 by simp
qed

section \<open>The fields of the record\<close>

lemma getMetaContent_absent:
  assumes "\<forall>s\<in>set (metaSelectors p). querySelector doc s = None"
  shows "getMetaContent doc p = []"
  using assms firstMatch_None_iff [of doc "metaSelectors p"]
  by (simp add: getMetaContent_def)

lemma splitAcc_without_separator:
  "\<not> includesStr s sep \<Longrightarrow> splitAcc sep acc s = [rev acc @ s]"
  by (induction s arbitrary: acc) auto

lemma titleSecondPart_absent:
  assumes "querySelector doc (TypeSel (ascii ''title'')) = None
           \<or> (\<exists>t. querySelector doc (TypeSel (ascii ''title'')) = Some t
                  \<and> \<not> includesStr (textContent t) (ascii '' | ''))"
  shows "titleSecondPart doc = None"
proof -
  have "at (split s (ascii '' | '')) 1 = None" if "\<not> includesStr s (ascii '' | '')" for s
  proof -
    have "ascii '' | '' \<noteq> []" by (simp add: ascii_def)
    then have "split s (ascii '' | '') = [s]"
      using that by (simp add: split_def splitAcc_without_separator)
    then show ?thesis by (simp add: at_def)
  qed
  with assms show ?thesis
    by (auto simp: titleSecondPart_def)
qed

lemma extractUrlData_success:
  assumes "snd (extractUrlData w fd) = Inr a"
  shows "\<exists>u html doc s. formDataGet fd (ascii ''url'') = Some u \<and> u \<noteq> []
           \<and> snd (obtainHtml w u) = Inr html \<and> jsdom w html = Inr doc
           \<and> siteNameSource w doc u = Inr s
           \<and> a = \<lparr> url = u,
                    siteName = truncateToVarCharLimit s,
                    title = truncateToVarCharLimit (titleSource doc),
                    description = truncateToVarCharLimit (descriptionSource doc),
                    publishedAt = publishedAtSource w doc,
                    thumbnail = normalizeText (thumbnailSource doc),
                    content = normalizeText (getContent doc),
                    isLiked = None,
                    isArchived = None \<rparr>"
proof -
  from assms obtain u where u: "formDataGet fd (ascii ''url'') = Some u" and ne: "u \<noteq> []"
    by (auto simp: extractUrlData_def split: option.splits if_splits)
  from assms extractUrlData_result [OF u ne, of w]
  obtain html doc where h: "snd (obtainHtml w u) = Inr html" and d: "jsdom w html = Inr doc"
    and b: "buildArticleData w doc u = Inr a"
    by (auto split: sum.splits)
  from b obtain s where "siteNameSource w doc u = Inr s"
    and "a = \<lparr> url = u,
                    siteName = truncateToVarCharLimit s,
                    title = truncateToVarCharLimit (titleSource doc),
                    description = truncateToVarCharLimit (descriptionSource doc),
                    publishedAt = publishedAtSource w doc,
                    thumbnail = normalizeText (thumbnailSource doc),
                    content = normalizeText (getContent doc),
                    isLiked = None,
                    isArchived = None \<rparr>"
    by (auto simp: buildArticleData_def split: sum.splits)
  with u ne h d show ?thesis by blast
qed

lemma truncateToVarCharLimit_id:
  assumes "\<forall>c\<in>set s. \<not> isWhiteSpace c" and "length s \<le> 255"
  shows "truncateToVarCharLimit s = s"
  using assms by (simp add: truncateToVarCharLimit_eq replaceWhitespaceRuns_id trim_id)

lemma truncateToVarCharLimit_defaultTitle: "truncateToVarCharLimit defaultTitle = defaultTitle"
  by (rule truncateToVarCharLimit_id)
     (simp_all add: defaultTitle_def isWhiteSpace_def whiteSpaceChars_def)

lemma truncateToVarCharLimit_Nil: "truncateToVarCharLimit [] = []"
  by (simp add: truncateToVarCharLimit_def)

lemma normalizeText_Nil: "normalizeText [] = []"
  by (simp add: normalizeText_def)

text \<open>
  C7. In a returned record, a field whose metadata sources are all absent from the parsed
  page holds its default: the title is the placeholder when there is no title or og:title
  meta element, no \<open>h1\<close> and no \<open>title\<close> element; the description and the thumbnail
  are empty when none of their meta elements exists; \<open>publishedAt\<close> is the reading of the
  clock when there is no modified or published time meta element and no \<open>time\<close> element
  with a \<open>datetime\<close>; the site name is the hostname of the URL, passed through
  \<open>truncateToVarCharLimit\<close>, which leaves a hostname without whitespace and of at most
  255 code units as it is, when there is no site name meta element and no second part of
  the page title. The URL is returned as given.
\<close>

theorem missing_metadata_defaults:
  assumes "formDataGet fd (ascii ''url'') = Some u" and "u \<noteq> []"
    and "snd (obtainHtml w u) = Inr html" and "jsdom w html = Inr doc"
    and "snd (extractUrlData w fd) = Inr a"
  shows "((\<forall>s\<in>set (metaSelectors (ascii ''title'') @ metaSelectors (ascii ''og:title'')).
              querySelector doc s = None)
            \<and> querySelector doc (TypeSel (ascii ''h1'')) = None
            \<and> querySelector doc (TypeSel (ascii ''title'')) = None \<longrightarrow>
            title a = defaultTitle)
         \<and> ((\<forall>s\<in>set (metaSelectors (ascii ''description'')
                         @ metaSelectors (ascii ''og:description'')
                         @ metaSelectors (ascii ''twitter:description'')).
              querySelector doc s = None) \<longrightarrow>
            description a = [])
         \<and> ((\<forall>s\<in>set (metaSelectors (ascii ''image'') @ metaSelectors (ascii ''og:image'')
                         @ metaSelectors (ascii ''twitter:image'')).
              querySelector doc s = None) \<longrightarrow>
            thumbnail a = [])
         \<and> ((\<forall>s\<in>set (metaSelectors (ascii ''article:modified_time'')
                         @ metaSelectors (ascii ''article:published_time'')).
              querySelector doc s = None)
            \<and> (querySelector doc (TypeSel (ascii ''time'')) = None
                \<or> (\<exists>t. querySelector doc (TypeSel (ascii ''time'')) = Some t
                       \<and> getAttribute t (ascii ''datetime'') = None)) \<longrightarrow>
            publishedAt a = nowISOString w)
         \<and> ((\<forall>s\<in>set (metaSelectors (ascii ''site_name'') @ metaSelectors (ascii ''og:site_name'')).
              querySelector doc s = None)
            \<and> (querySelector doc (TypeSel (ascii ''title'')) = None
                \<or> (\<exists>t. querySelector doc (TypeSel (ascii ''title'')) = Some t
                       \<and> \<not> includesStr (textContent t) (ascii '' | ''))) \<longrightarrow>
            (\<exists>h. urlHostname w u = Inr h \<and> siteName a = truncateToVarCharLimit h
                 \<and> ((\<forall>c\<in>set h. \<not> isWhiteSpace c) \<and> length h \<le> 255 \<longrightarrow> siteName a = h)))
         \<and> url a = u"
proof -
  from extractUrlData_success [OF assms(5)] assms(1-4)
  obtain s where s: "siteNameSource w doc u = Inr s"
    and a: "a = \<lparr> url = u,
                    siteName = truncateToVarCharLimit s,
                    title = truncateToVarCharLimit (titleSource doc),
                    description = truncateToVarCharLimit (descriptionSource doc),
                    publishedAt = publishedAtSource w doc,
                    thumbnail = normalizeText (thumbnailSource doc),
                    content = normalizeText (getContent doc),
                    isLiked = None,
                    isArchived = None \<rparr>"
    by auto
  have t: "(\<forall>s\<in>set (metaSelectors (ascii ''title'') @ metaSelectors (ascii ''og:title'')).
              querySelector doc s = None)
            \<and> querySelector doc (TypeSel (ascii ''h1'')) = None
            \<and> querySelector doc (TypeSel (ascii ''title'')) = None \<longrightarrow>
            title a = defaultTitle"
  proof (intro impI, elim conjE)
    assume m: "\<forall>s\<in>set (metaSelectors (ascii ''title'') @ metaSelectors (ascii ''og:title'')).
              querySelector doc s = None"
      and h1: "querySelector doc (TypeSel (ascii ''h1'')) = None"
      and ti: "querySelector doc (TypeSel (ascii ''title'')) = None"
    from m have "getMetaContent doc (ascii ''title'') = []"
      and "getMetaContent doc (ascii ''og:title'') = []"
      by (simp_all add: getMetaContent_absent)
    with h1 ti have "titleSource doc = defaultTitle"
      by (simp add: titleSource_def orElse_def orElseOpt_def textOf_def defaultTitle_def)
    then show "title a = defaultTitle"
      by (simp add: a truncateToVarCharLimit_defaultTitle)
  qed
  have d: "(\<forall>s\<in>set (metaSelectors (ascii ''description'')
                         @ metaSelectors (ascii ''og:description'')
                         @ metaSelectors (ascii ''twitter:description'')).
              querySelector doc s = None) \<longrightarrow>
            description a = []"
  proof
    assume m: "\<forall>s\<in>set (metaSelectors (ascii ''description'')
                         @ metaSelectors (ascii ''og:description'')
                         @ metaSelectors (ascii ''twitter:description'')).
              querySelector doc s = None"
    then have "getMetaContent doc (ascii ''description'') = []"
      and "getMetaContent doc (ascii ''og:description'') = []"
      and "getMetaContent doc (ascii ''twitter:description'') = []"
      by (simp_all add: getMetaContent_absent)
    then have "descriptionSource doc = []"
      by (simp add: descriptionSource_def orElse_def)
    then show "description a = []"
      by (simp add: a truncateToVarCharLimit_Nil)
  qed
  have i: "(\<forall>s\<in>set (metaSelectors (ascii ''image'') @ metaSelectors (ascii ''og:image'')
                         @ metaSelectors (ascii ''twitter:image'')).
              querySelector doc s = None) \<longrightarrow>
            thumbnail a = []"
  proof
    assume m: "\<forall>s\<in>set (metaSelectors (ascii ''image'') @ metaSelectors (ascii ''og:image'')
                         @ metaSelectors (ascii ''twitter:image'')).
              querySelector doc s = None"
    then have "getMetaContent doc (ascii ''image'') = []"
      and "getMetaContent doc (ascii ''og:image'') = []"
      and "getMetaContent doc (ascii ''twitter:image'') = []"
      by (simp_all add: getMetaContent_absent)
    then have "thumbnailSource doc = []"
      by (simp add: thumbnailSource_def orElse_def)
    then show "thumbnail a = []"
      by (simp add: a normalizeText_Nil)
  qed
  have p: "(\<forall>s\<in>set (metaSelectors (ascii ''article:modified_time'')
                         @ metaSelectors (ascii ''article:published_time'')).
              querySelector doc s = None)
            \<and> (querySelector doc (TypeSel (ascii ''time'')) = None
                \<or> (\<exists>t. querySelector doc (TypeSel (ascii ''time'')) = Some t
                       \<and> getAttribute t (ascii ''datetime'') = None)) \<longrightarrow>
            publishedAt a = nowISOString w"
  proof (intro impI, elim conjE)
    assume m: "\<forall>s\<in>set (metaSelectors (ascii ''article:modified_time'')
                         @ metaSelectors (ascii ''article:published_time'')).
              querySelector doc s = None"
      and ti: "querySelector doc (TypeSel (ascii ''time'')) = None
                \<or> (\<exists>t. querySelector doc (TypeSel (ascii ''time'')) = Some t
                       \<and> getAttribute t (ascii ''datetime'') = None)"
    from m have "getMetaContent doc (ascii ''article:modified_time'') = []"
      and "getMetaContent doc (ascii ''article:published_time'') = []"
      by (simp_all add: getMetaContent_absent)
    moreover from ti have "timeDatetime doc = None"
      by (auto simp: timeDatetime_def)
    ultimately have "publishedAtSource w doc = nowISOString w"
      by (simp add: publishedAtSource_def orElse_def orElseOpt_def)
    then show "publishedAt a = nowISOString w"
      by (simp add: a)
  qed
  have n: "(\<forall>s\<in>set (metaSelectors (ascii ''site_name'') @ metaSelectors (ascii ''og:site_name'')).
              querySelector doc s = None)
            \<and> (querySelector doc (TypeSel (ascii ''title'')) = None
                \<or> (\<exists>t. querySelector doc (TypeSel (ascii ''title'')) = Some t
                       \<and> \<not> includesStr (textContent t) (ascii '' | ''))) \<longrightarrow>
            (\<exists>h. urlHostname w u = Inr h \<and> siteName a = truncateToVarCharLimit h
                 \<and> ((\<forall>c\<in>set h. \<not> isWhiteSpace c) \<and> length h \<le> 255 \<longrightarrow> siteName a = h))"
  proof (intro impI, elim conjE)
    assume m: "\<forall>s\<in>set (metaSelectors (ascii ''site_name'') @ metaSelectors (ascii ''og:site_name'')).
              querySelector doc s = None"
      and ti: "querySelector doc (TypeSel (ascii ''title'')) = None
                \<or> (\<exists>t. querySelector doc (TypeSel (ascii ''title'')) = Some t
                       \<and> \<not> includesStr (textContent t) (ascii '' | ''))"
    from m have "getMetaContent doc (ascii ''site_name'') = []"
      and "getMetaContent doc (ascii ''og:site_name'') = []"
      by (simp_all add: getMetaContent_absent)
    moreover from ti have "titleSecondPart doc = None"
      by (rule titleSecondPart_absent)
    ultimately have "siteNameSource w doc u = urlHostname w u"
      by (simp add: siteNameSource_def orElse_def orElseOpt_def)
    with s have h: "urlHostname w u = Inr s" by simp
    have "siteName a = truncateToVarCharLimit s" by (simp add: a)
    moreover have "(\<forall>c\<in>set s. \<not> isWhiteSpace c) \<and> length s \<le> 255 \<longrightarrow> siteName a = s"
      using truncateToVarCharLimit_id [of s] by (simp add: a)
    ultimately show "\<exists>h. urlHostname w u = Inr h \<and> siteName a = truncateToVarCharLimit h
                 \<and> ((\<forall>c\<in>set h. \<not> isWhiteSpace c) \<and> length h \<le> 255 \<longrightarrow> siteName a = h)"
      using h by blast
  qed
  have u: "url a = u" by (simp add: a)
  from t d i p n u show ?thesis
    by - (intro conjI; assumption)
qed

text \<open>A complete run on the plain page: one fetch, no renderer, the defaults.\<close>

lemma extractUrlData_plain:
  "extractUrlData plainWorld exampleForm =
     ([Fetch exampleUrl],
      Inr \<lparr> url = exampleUrl, siteName = ascii ''example.com'', title = defaultTitle,
            description = [], publishedAt = ascii ''2025-01-01T00:00:00.000Z'', thumbnail = [],
            content = ascii ''hi'', isLiked = None, isArchived = None \<rparr>)"
  by (simp add: extractUrlData_def extractionAttempt_def obtainHtml_def staticFetch_def
      checkIfJavaScriptRequired_def jsRequiredDomains_def jsIndicators_def startsWith_def
      plainWorld_def exampleForm_def formDataGet_def exampleUrl_def ok_def
      buildArticleData_def siteNameSource_def titleSource_def descriptionSource_def
      publishedAtSource_def thumbnailSource_def getContent_def getMetaContent_def
      metaSelectors_def contentSelectors_def noiseSelectors_def querySelector_def
      titleSecondPart_def textOf_def timeDatetime_def orElse_def orElseOpt_def
      bareDocument_def classList_def getAttribute_def
      truncateToVarCharLimit_def normalizeText_def trim_def trimStart_def slice0_def
      isWhiteSpace_def whiteSpaceChars_def space_def defaultTitle_def exampleHtml_def
      ascii_def Let_def)

lemma bareDocument_no_meta:
  "\<forall>s\<in>set (metaSelectors p). querySelector bareDocument s = None"
  by (simp add: metaSelectors_def querySelector_def bareDocument_def ascii_def)

theorem missing_metadata_defaults_witness:
  "formDataGet exampleForm (ascii ''url'') = Some exampleUrl \<and> exampleUrl \<noteq> []
   \<and> snd (obtainHtml plainWorld exampleUrl) = Inr exampleHtml
   \<and> jsdom plainWorld exampleHtml = Inr bareDocument
   \<and> urlHostname plainWorld exampleUrl = Inr (ascii ''example.com'')
   \<and> (\<exists>a. snd (extractUrlData plainWorld exampleForm) = Inr a
          \<and> title a = defaultTitle \<and> description a = [] \<and> thumbnail a = []
          \<and> publishedAt a = nowISOString plainWorld
          \<and> siteName a = ascii ''example.com''
          \<and> url a = exampleUrl)"
proof -
  have a: "formDataGet exampleForm (ascii ''url'') = Some exampleUrl"
    by (simp add: formDataGet_def exampleForm_def)
  have b: "exampleUrl \<noteq> []"
    by (simp add: exampleUrl_def ascii_def)
  have c: "snd (obtainHtml plainWorld exampleUrl) = Inr exampleHtml"
    by (simp add: obtainHtml_def staticFetch_def checkIfJavaScriptRequired_def
        jsRequiredDomains_def jsIndicators_def startsWith_def plainWorld_def ok_def
        exampleHtml_def ascii_def)
  have d: "jsdom plainWorld exampleHtml = Inr bareDocument"
    by (simp add: plainWorld_def)
  obtain r where e: "snd (extractUrlData plainWorld exampleForm) = Inr r"
    by (simp add: extractUrlData_plain)
  have h: "urlHostname plainWorld exampleUrl = Inr (ascii ''example.com'')"
    by (simp add: plainWorld_def)
  have nometa: "\<forall>s\<in>set (metaSelectors p @ metaSelectors p'). querySelector bareDocument s = None"
    and nometa3: "\<forall>s\<in>set (metaSelectors p @ metaSelectors p' @ metaSelectors p'').
                    querySelector bareDocument s = None" for p p' p''
    using bareDocument_no_meta by auto
  have noel: "querySelector bareDocument (TypeSel (ascii ''h1'')) = None"
    "querySelector bareDocument (TypeSel (ascii ''title'')) = None"
    "querySelector bareDocument (TypeSel (ascii ''time'')) = None"
    by (simp_all add: querySelector_def bareDocument_def ascii_def)
  have host: "(\<forall>c\<in>set (ascii ''example.com''). \<not> isWhiteSpace c) \<and> length (ascii ''example.com'') \<le> 255"
    by (simp add: ascii_def isWhiteSpace_def whiteSpaceChars_def)
  note defaults = missing_metadata_defaults [OF a b c d e]
  have "title r = defaultTitle" using defaults nometa noel by blast
  moreover have "description r = []" using defaults nometa3 by blast
  moreover have "thumbnail r = []" using defaults nometa3 by blast
  moreover have "publishedAt r = nowISOString plainWorld" using defaults nometa noel by blast
  moreover have "siteName r = ascii ''example.com''"
  proof -
    from defaults nometa noel obtain h' where "urlHostname plainWorld exampleUrl = Inr h'"
      and "(\<forall>c\<in>set h'. \<not> isWhiteSpace c) \<and> length h' \<le> 255 \<longrightarrow> siteName r = h'"
      by blast
    with h host show ?thesis by simp
  qed
  moreover have "url r = exampleUrl" using defaults by blast
  ultimately show ?thesis using a b c d e h by blast
qed

lemma displayField_truncateToVarCharLimit: "displayField (truncateToVarCharLimit s)"
proof -
  let ?n = "trim (replaceWhitespaceRuns s)"
  have "collapsed (take 255 ?n)"
    by (simp add: collapsed_take collapsed_trim collapsed_replaceWhitespaceRuns)
  moreover have "take 255 ?n = [] \<or> \<not> isWhiteSpace (hd (take 255 ?n))"
  proof (cases "?n = []")
    case True
    then show ?thesis by simp
  next
    case False
    then have "hd (take 255 ?n) = hd ?n" by (cases ?n) simp_all
    with False trim_ends(1) [of "replaceWhitespaceRuns s"] show ?thesis by simp
  qed
  ultimately show ?thesis
    by (simp add: displayField_def truncateToVarCharLimit_eq)
qed

lemma normalizedField_normalizeText: "normalizedField (normalizeText s)"
  using trim_ends [of "replaceWhitespaceRuns s"]
  by (auto simp: normalizedField_def normalizeText_eq collapsed_trim
      collapsed_replaceWhitespaceRuns)

lemma length_normalizeText: "length (normalizeText s) \<le> length s"
  using length_trim [of "replaceWhitespaceRuns s"] length_replaceWhitespaceRuns [of s]
  by (simp add: normalizeText_eq)

lemma extractUrlData_actions_success:
  assumes "snd (extractUrlData_actions w fd) = Inr b"
  shows "\<exists>u html doc s. formDataGet fd (ascii ''url'') = Some u \<and> u \<noteq> []
           \<and> snd (obtainHtml w u) = Inr html \<and> jsdom w html = Inr doc
           \<and> siteNameSource w doc u = Inr s
           \<and> b = \<lparr> url = u,
                    siteName = s,
                    title = titleSource doc,
                    description = descriptionSource doc,
                    publishedAt = publishedAtSource w doc,
                    thumbnail = thumbnailSource doc,
                    content = getContent doc,
                    isLiked = None,
                    isArchived = None \<rparr>"
  using assms
  by (auto simp: extractUrlData_actions_def buildArticleData_actions_def
      split: option.splits if_splits prod.splits sum.splits)

lemma extractUrlData_after_actions:
  assumes "snd (extractUrlData_actions w fd) = Inr b"
  shows "snd (extractUrlData w fd) =
          Inr \<lparr> url = url b,
                siteName = truncateToVarCharLimit (siteName b),
                title = truncateToVarCharLimit (title b),
                description = truncateToVarCharLimit (description b),
                publishedAt = publishedAt b,
                thumbnail = normalizeText (thumbnail b),
                content = normalizeText (content b),
                isLiked = None,
                isArchived = None \<rparr>"
proof -
  from extractUrlData_actions_success [OF assms]
  obtain u html doc s where u: "formDataGet fd (ascii ''url'') = Some u" and ne: "u \<noteq> []"
    and h: "snd (obtainHtml w u) = Inr html" and d: "jsdom w html = Inr doc"
    and s: "siteNameSource w doc u = Inr s"
    and b: "b = \<lparr> url = u,
                    siteName = s,
                    title = titleSource doc,
                    description = descriptionSource doc,
                    publishedAt = publishedAtSource w doc,
                    thumbnail = thumbnailSource doc,
                    content = getContent doc,
                    isLiked = None,
                    isArchived = None \<rparr>"
    by blast
  show ?thesis
    using extractUrlData_result [OF u ne, of w] h d s
    by (simp add: b buildArticleData_def)
qed

text \<open>The two versions on the page with the long title and image.\<close>

lemma extractUrlData_actions_long:
  "extractUrlData_actions longWorld exampleForm = ([Fetch exampleUrl], Inr longRecord_actions)"
  by (simp add: extractUrlData_actions_def obtainHtml_def staticFetch_def
      checkIfJavaScriptRequired_def jsRequiredDomains_def jsIndicators_def startsWith_def
      longWorld_def plainWorld_def exampleForm_def formDataGet_def exampleUrl_def ok_def
      buildArticleData_actions_def siteNameSource_def titleSource_def descriptionSource_def
      publishedAtSource_def thumbnailSource_def getContent_def getMetaContent_def
      metaSelectors_def contentSelectors_def noiseSelectors_def querySelector_def
      titleSecondPart_def textOf_def timeDatetime_def orElse_def orElseOpt_def
      longDocument_def longRecord_actions_def longTitle_def longImage_def
      classList_def getAttribute_def trim_def trimStart_def slice0_def
      isWhiteSpace_def whiteSpaceChars_def exampleHtml_def ascii_def Let_def)

lemma truncateToVarCharLimit_longTitle: "truncateToVarCharLimit longTitle = replicate 255 0x0062"
proof -
  have "\<forall>c\<in>set longTitle. \<not> isWhiteSpace c"
    by (simp add: longTitle_def isWhiteSpace_def whiteSpaceChars_def)
  then have "trim (replaceWhitespaceRuns longTitle) = longTitle"
    by (simp add: replaceWhitespaceRuns_id trim_id)
  then show ?thesis
    by (simp add: truncateToVarCharLimit_eq) (simp add: longTitle_def)
qed

lemma normalizeText_longImage: "normalizeText longImage = longImage"
proof -
  have "\<forall>c\<in>set longImage. \<not> isWhiteSpace c"
    by (simp add: longImage_def isWhiteSpace_def whiteSpaceChars_def)
  then show ?thesis
    by (simp add: normalizeText_eq replaceWhitespaceRuns_id trim_id)
qed

lemma extractUrlData_long: "snd (extractUrlData longWorld exampleForm) = Inr longRecord"
proof -
  have "snd (extractUrlData_actions longWorld exampleForm) = Inr longRecord_actions"
    by (simp add: extractUrlData_actions_long)
  from extractUrlData_after_actions [OF this]
  have "snd (extractUrlData longWorld exampleForm) =
          Inr \<lparr> url = exampleUrl,
                siteName = truncateToVarCharLimit (ascii ''example.com''),
                title = truncateToVarCharLimit longTitle,
                description = truncateToVarCharLimit [],
                publishedAt = ascii ''2025-01-01T00:00:00.000Z'',
                thumbnail = normalizeText longImage,
                content = normalizeText (ascii ''hi''),
                isLiked = None,
                isArchived = None \<rparr>"
    by (simp add: longRecord_actions_def)
  moreover have "truncateToVarCharLimit (ascii ''example.com'') = ascii ''example.com''"
    by (rule truncateToVarCharLimit_id)
       (simp_all add: ascii_def isWhiteSpace_def whiteSpaceChars_def)
  moreover have "normalizeText (ascii ''hi'') = ascii ''hi''"
    by (simp add: normalizeText_eq replaceWhitespaceRuns_id trim_id ascii_def
        isWhiteSpace_def whiteSpaceChars_def)
  ultimately show ?thesis
    by (simp add: truncateToVarCharLimit_longTitle normalizeText_longImage
        truncateToVarCharLimit_Nil longRecord_def longRecord_actions_def)
qed

text \<open>
  C8, as stated, fails. On a page whose Open Graph image is 300 code units long, the
  returned thumbnail is 300 long: the excerpt is not the only field that is normalised
  without a cut, and the thumbnail is not a display field. In the version of
  \<open>src/app/actions/extract-url-data.ts\<close>, the title itself is returned 300 long.
\<close>

theorem record_field_classes_counterexample:
  "snd (extractUrlData longWorld exampleForm) = Inr longRecord
   \<and> thumbnail longRecord = longImage
   \<and> length (thumbnail longRecord) = 300
   \<and> \<not> displayField (thumbnail longRecord)
   \<and> snd (extractUrlData_actions longWorld exampleForm) = Inr longRecord_actions
   \<and> length (title longRecord_actions) = 300
   \<and> \<not> displayField (title longRecord_actions)"
  by (simp add: extractUrlData_long extractUrlData_actions_long longRecord_def
      longRecord_actions_def displayField_def) (simp add: longImage_def longTitle_def)

text \<open>
  C8, amended. In every record returned by \<open>extractUrlData\<close> of
  \<open>src/unnamed/part_000\<close>, the site name, the title and the description are display
  fields: the first 255 code units of a whitespace-normalised text, so at most 255 long,
  with whitespace only as single spaces and none in front. Two fields, the thumbnail and
  the body excerpt, are whitespace-normalised and not cut by the normalisation; the
  excerpt is at most 1000 long because \<open>getContent\<close> cut it before. The URL is the one
  submitted. The record returned by \<open>extractUrlData\<close> of
  \<open>src/app/actions/extract-url-data.ts\<close> holds the same texts before these two
  functions are applied.
\<close>

theorem record_field_classes:
  "(\<forall>a. snd (extractUrlData w fd) = Inr a \<longrightarrow>
        displayField (siteName a) \<and> displayField (title a) \<and> displayField (description a)
        \<and> normalizedField (thumbnail a) \<and> normalizedField (content a)
        \<and> length (content a) \<le> 1000
        \<and> formDataGet fd (ascii ''url'') = Some (url a))
   \<and> (\<forall>b. snd (extractUrlData_actions w fd) = Inr b \<longrightarrow>
        snd (extractUrlData w fd) =
          Inr \<lparr> url = url b,
                siteName = truncateToVarCharLimit (siteName b),
                title = truncateToVarCharLimit (title b),
                description = truncateToVarCharLimit (description b),
                publishedAt = publishedAt b,
                thumbnail = normalizeText (thumbnail b),
                content = normalizeText (content b),
                isLiked = None,
                isArchived = None \<rparr>)"
proof (rule conjI; intro allI impI)
  fix a
  assume "snd (extractUrlData w fd) = Inr a"
  from extractUrlData_success [OF this]
  obtain u html doc s where u: "formDataGet fd (ascii ''url'') = Some u"
    and a: "a = \<lparr> url = u,
                    siteName = truncateToVarCharLimit s,
                    title = truncateToVarCharLimit (titleSource doc),
                    description = truncateToVarCharLimit (descriptionSource doc),
                    publishedAt = publishedAtSource w doc,
                    thumbnail = normalizeText (thumbnailSource doc),
                    content = normalizeText (getContent doc),
                    isLiked = None,
                    isArchived = None \<rparr>"
    by blast
  have "length (content a) \<le> 1000"
    using length_normalizeText [of "getContent doc"] length_getContent [of doc]
    by (simp add: a)
  with u show "displayField (siteName a) \<and> displayField (title a) \<and> displayField (description a)
        \<and> normalizedField (thumbnail a) \<and> normalizedField (content a)
        \<and> length (content a) \<le> 1000
        \<and> formDataGet fd (ascii ''url'') = Some (url a)"
    by (simp add: a displayField_truncateToVarCharLimit normalizedField_normalizeText)
next
  fix b
  assume "snd (extractUrlData_actions w fd) = Inr b"
  then show "snd (extractUrlData w fd) =
          Inr \<lparr> url = url b,
                siteName = truncateToVarCharLimit (siteName b),
                title = truncateToVarCharLimit (title b),
                description = truncateToVarCharLimit (description b),
                publishedAt = publishedAt b,
                thumbnail = normalizeText (thumbnail b),
                content = normalizeText (content b),
                isLiked = None,
                isArchived = None \<rparr>"
    by (rule extractUrlData_after_actions)
qed

theorem record_field_classes_witness:
  "snd (extractUrlData longWorld exampleForm) = Inr longRecord
   \<and> snd (extractUrlData_actions longWorld exampleForm) = Inr longRecord_actions
   \<and> displayField (siteName longRecord) \<and> displayField (title longRecord)
   \<and> displayField (description longRecord)
   \<and> normalizedField (thumbnail longRecord) \<and> normalizedField (content longRecord)
   \<and> length (content longRecord) \<le> 1000
   \<and> formDataGet exampleForm (ascii ''url'') = Some (url longRecord)
   \<and> title longRecord = truncateToVarCharLimit (title longRecord_actions)"
proof -
  have a: "snd (extractUrlData longWorld exampleForm) = Inr longRecord"
    by (rule extractUrlData_long)
  have b: "snd (extractUrlData_actions longWorld exampleForm) = Inr longRecord_actions"
    by (simp add: extractUrlData_actions_long)
  have "displayField (siteName longRecord) \<and> displayField (title longRecord)
        \<and> displayField (description longRecord)
        \<and> normalizedField (thumbnail longRecord) \<and> normalizedField (content longRecord)
        \<and> length (content longRecord) \<le> 1000
        \<and> formDataGet exampleForm (ascii ''url'') = Some (url longRecord)"
    using record_field_classes [of longWorld exampleForm] a by blast
  moreover have "snd (extractUrlData longWorld exampleForm) =
          Inr \<lparr> url = url longRecord_actions,
                siteName = truncateToVarCharLimit (siteName longRecord_actions),
                title = truncateToVarCharLimit (title longRecord_actions),
                description = truncateToVarCharLimit (description longRecord_actions),
                publishedAt = publishedAt longRecord_actions,
                thumbnail = normalizeText (thumbnail longRecord_actions),
                content = normalizeText (content longRecord_actions),
                isLiked = None,
                isArchived = None \<rparr>"
    using record_field_classes [of longWorld exampleForm] b by blast
  with a have eq: "longRecord =
          \<lparr> url = url longRecord_actions,
                siteName = truncateToVarCharLimit (siteName longRecord_actions),
                title = truncateToVarCharLimit (title longRecord_actions),
                description = truncateToVarCharLimit (description longRecord_actions),
                publishedAt = publishedAt longRecord_actions,
                thumbnail = normalizeText (thumbnail longRecord_actions),
                content = normalizeText (content longRecord_actions),
                isLiked = None,
                isArchived = None \<rparr>"
    by simp
  have "title longRecord = truncateToVarCharLimit (title longRecord_actions)"
    by (subst eq) simp
  ultimately show ?thesis using a b by blast
qed


end
